theory Spec2Isabelle
  imports Complex_Main "HOL-Library.Log_Nat"
begin

section \<open>JavaScript values\<close>

subsection \<open>Numbers\<close>

text \<open>
  A JavaScript number is an IEEE 754 binary64 value. A finite one is a real number, and
  every arithmetic operation returns the exact result rounded to the nearest value with a
  53-bit significand, ties to the even significand. \<open>fl\<close> is that rounding for
  magnitudes in the normal range (\<open>2 ^ -1022\<close> up to \<open>2 ^ 1024\<close>); the amounts and
  balances of this program lie between one cent and \<open>2 ^ 53\<close>, far inside it.
\<close>

definition pow2 :: "int \<Rightarrow> real" where
  "pow2 e = (if 0 \<le> e then 2 ^ nat e else 1 / 2 ^ nat (- e))"

text \<open>The binary exponent of a positive number: the largest \<open>e\<close> with \<open>2 ^ e \<le> x\<close>.\<close>

definition ilog2 :: "real \<Rightarrow> int" where
  "ilog2 x = (if 1 \<le> x then bitlen \<lfloor>x\<rfloor> - 1 else - bitlen (\<lceil>1 / x\<rceil> - 1))"

definition round_half_even :: "real \<Rightarrow> int" where
  "round_half_even q =
     (let f = \<lfloor>q\<rfloor>; r = q - of_int f in
      if r < 1 / 2 then f
      else if 1 / 2 < r then f + 1
      else if even f then f else f + 1)"

definition fl :: "real \<Rightarrow> real" where
  "fl x =
     (if x = 0 then 0
      else let ulp = pow2 (ilog2 \<bar>x\<bar> - 52)
           in of_int (round_half_even (x / ulp)) * ulp)"

definition fadd :: "real \<Rightarrow> real \<Rightarrow> real" where
  "fadd x y = fl (x + y)"

definition fmul :: "real \<Rightarrow> real \<Rightarrow> real" where
  "fmul x y = fl (x * y)"

definition fdiv :: "real \<Rightarrow> real \<Rightarrow> real" where
  "fdiv x y = fl (x / y)"

text \<open>
  \<^verbatim>\<open>Math.round(x)\<close>: the integer nearest to \<open>x\<close>, a tie going up. The result is exact:
  a number below \<open>2 ^ 52\<close> rounds to an integer that binary64 holds, and a larger one is
  an integer already.
\<close>

definition Math_round :: "real \<Rightarrow> real" where
  "Math_round x = of_int \<lfloor>x + 1 / 2\<rfloor>"

subsection \<open>Strings\<close>

text \<open>
  \<^verbatim>\<open>s.split(sep)\<close> for a non-empty separator: the pieces between the occurrences of
  \<open>sep\<close>, taken from the left. \<open>cur\<close> is the piece being read.
\<close>

function split_from :: "string \<Rightarrow> string \<Rightarrow> string \<Rightarrow> string list" where
  "split_from sep cur [] = [cur]"
| "split_from sep cur (c # cs) =
     (if sep \<noteq> [] \<and> take (length sep) (c # cs) = sep
      then cur # split_from sep [] (drop (length sep) (c # cs))
      else split_from sep (cur @ [c]) cs)"
  by pat_completeness auto
termination
  by (relation "measure (\<lambda>(sep, cur, rest). length rest)") (auto simp: neq_Nil_conv)

definition String_split :: "string \<Rightarrow> string \<Rightarrow> string list" where
  "String_split s sep = split_from sep [] s"

text \<open>\<^verbatim>\<open>parts.join(sep)\<close>.\<close>

fun Array_join :: "string list \<Rightarrow> string \<Rightarrow> string" where
  "Array_join [] sep = []"
| "Array_join [p] sep = p"
| "Array_join (p # q # ps) sep = p @ sep @ Array_join (q # ps) sep"

definition startsWith :: "string \<Rightarrow> string \<Rightarrow> bool" where
  "startsWith s p \<longleftrightarrow> take (length p) s = p"

text \<open>The regular-expression class \<^verbatim>\<open>\d\<close>: an ASCII digit.\<close>

definition is_decimal_digit :: "char \<Rightarrow> bool" where
  "is_decimal_digit c \<longleftrightarrow> 48 \<le> (of_char c :: nat) \<and> (of_char c :: nat) \<le> 57"

definition digit_value :: "char \<Rightarrow> nat" where
  "digit_value c = (of_char c :: nat) - 48"

text \<open>A truthy string is a defined, non-empty one.\<close>

definition truthy :: "string option \<Rightarrow> bool" where
  "truthy s \<longleftrightarrow> (case s of None \<Rightarrow> False | Some v \<Rightarrow> v \<noteq> [])"

subsection \<open>Dates\<close>

text \<open>
  A \<^verbatim>\<open>Date\<close> holds a time value: milliseconds since 1970-01-01T00:00:00Z, or NaN (here
  \<open>None\<close>) for an invalid date. \<^verbatim>\<open>getFullYear\<close>, \<^verbatim>\<open>getMonth\<close> and \<^verbatim>\<open>getDate\<close> read
  the calendar fields of the local time, which is the time value plus the offset of the
  host's time zone (\<open>tza\<close>, in milliseconds, negative west of Greenwich).
\<close>

definition msPerDay :: int where
  "msPerDay = 86400000"

text \<open>Days since 1970-01-01 of a date of the proleptic Gregorian calendar, month \<open>1..12\<close>.\<close>

definition days_from_civil :: "int \<Rightarrow> int \<Rightarrow> int \<Rightarrow> int" where
  "days_from_civil y m d =
     (let y' = (if m \<le> 2 then y - 1 else y);
          era = y' div 400;
          yoe = y' - era * 400;
          doy = (153 * (if 2 < m then m - 3 else m + 9) + 2) div 5 + d - 1;
          doe = yoe * 365 + yoe div 4 - yoe div 100 + doy
      in era * 146097 + doe - 719468)"

text \<open>The inverse: year, month \<open>1..12\<close> and day of the month of a day number.\<close>

definition civil_from_days :: "int \<Rightarrow> int \<times> int \<times> int" where
  "civil_from_days z0 =
     (let z = z0 + 719468;
          era = z div 146097;
          doe = z - era * 146097;
          yoe = (doe - doe div 1460 + doe div 36524 - doe div 146096) div 365;
          doy = doe - (365 * yoe + yoe div 4 - yoe div 100);
          mp = (5 * doy + 2) div 153;
          d = doy - (153 * mp + 2) div 5 + 1;
          m = (if mp < 10 then mp + 3 else mp - 9);
          y = yoe + era * 400
      in (if m \<le> 2 then y + 1 else y, m, d))"

definition getFullYear :: "int \<Rightarrow> int \<Rightarrow> int" where
  "getFullYear tza t = fst (civil_from_days ((t + tza) div msPerDay))"

text \<open>\<^verbatim>\<open>getMonth\<close> counts from \<open>0\<close>.\<close>

definition getMonth :: "int \<Rightarrow> int \<Rightarrow> int" where
  "getMonth tza t = fst (snd (civil_from_days ((t + tza) div msPerDay))) - 1"

definition getDate :: "int \<Rightarrow> int \<Rightarrow> int" where
  "getDate tza t = snd (snd (civil_from_days ((t + tza) div msPerDay)))"

text \<open>The decimal digits of a natural number, as \<^verbatim>\<open>String(n)\<close> prints them.\<close>

function decimal :: "nat \<Rightarrow> string" where
  "decimal n =
     (if n < 10 then [''0123456789'' ! n]
      else decimal (n div 10) @ [''0123456789'' ! (n mod 10)])"
  by pat_completeness auto
termination
  by (relation "measure id") auto

declare decimal.simps [simp del]

definition digits_value :: "string \<Rightarrow> int" where
  "digits_value s = foldl (\<lambda>n c. 10 * n + int (digit_value c)) 0 s"

text \<open>
  \<^verbatim>\<open>new Date(val)\<close> on a date-only string \<^verbatim>\<open>YYYY-MM-DD\<close>, the form the date field of a
  web form submits and the tests of the repository use: the time value is midnight UTC of that
  day (ECMAScript reads the date-only forms as UTC, the date-time forms without an offset
  as local time). Node accepts a month from 1 to 12 and a day from 1 to 31 whatever the
  month, and a day past the end of the month runs over into the next one, as it does in
  \<open>days_from_civil\<close>. A string of another form is \<open>None\<close> here; hosts differ on those
  forms, and nothing below depends on them.
\<close>

definition Date_of_iso_date :: "string \<Rightarrow> int option" where
  "Date_of_iso_date val =
     (if length val = 10 \<and> val ! 4 = CHR ''-'' \<and> val ! 7 = CHR ''-'' \<and>
         list_all is_decimal_digit (take 4 val @ take 2 (drop 5 val) @ drop 8 val)
      then (let y = digits_value (take 4 val);
                m = digits_value (take 2 (drop 5 val));
                d = digits_value (drop 8 val)
            in if 1 \<le> m \<and> m \<le> 12 \<and> 1 \<le> d \<and> d \<le> 31
               then Some (days_from_civil y m d * msPerDay)
               else None)
      else None)"

section \<open>Storage\<close>

text \<open>
  Modelled from the spec: the tables \<^verbatim>\<open>users\<close>, \<^verbatim>\<open>accounts\<close>, \<^verbatim>\<open>transactions\<close> and
  \<^verbatim>\<open>sessions\<close> of \<^verbatim>\<open>lib/db\<close>, whose schema is not among the sources; the fields are
  those the routers read and write and the \<^verbatim>\<open>CREATE TABLE\<close> statements of the integration
  test list. A table is the list of its rows in insertion order; an identifier comes from
  the table's AUTOINCREMENT sequence; \<^verbatim>\<open>users.email\<close> and \<^verbatim>\<open>sessions.token\<close> are unique.
  Timestamps are kept as numbers: \<open>expiresAt\<close> and \<open>processedAt\<close> in milliseconds (the
  ISO string the code stores has that precision), \<open>createdAt\<close> in seconds.
  The personal fields of a user, which the source keeps flat, are grouped in \<open>profile\<close>.
\<close>

record profile =
  firstName :: string
  lastName :: string
  phoneNumber :: string
  dateOfBirth :: string
  address :: string
  city :: string
  state :: string
  zipCode :: string

record user_row =
  u_id :: nat
  u_email :: string
  u_password :: string
  u_ssn :: string
  u_profile :: profile
  u_createdAt :: int

record session_row =
  s_id :: nat
  s_userId :: nat
  s_token :: string
  s_expiresAt :: int
  s_createdAt :: int

record account_row =
  a_id :: nat
  a_userId :: nat
  a_accountNumber :: string
  a_accountType :: string
  a_balance :: real
  a_status :: string
  a_createdAt :: int

record transaction_row =
  t_id :: nat
  t_accountId :: int
  t_type :: string
  t_amount :: real
  t_description :: string
  t_status :: string
  t_createdAt :: int
  t_processedAt :: "int option"

record db =
  users :: "user_row list"
  users_seq :: nat
  accounts :: "account_row list"
  accounts_seq :: nat
  transactions :: "transaction_row list"
  transactions_seq :: nat
  sessions :: "session_row list"
  sessions_seq :: nat

definition empty_db :: db where
  "empty_db =
     \<lparr>users = [], users_seq = 0, accounts = [], accounts_seq = 0,
      transactions = [], transactions_seq = 0, sessions = [], sessions_seq = 0\<rparr>"

text \<open>\<^verbatim>\<open>db.insert(users).values(...)\<close>; \<open>None\<close> is the error of the unique constraint.\<close>

definition insert_user ::
  "db \<Rightarrow> string \<Rightarrow> string \<Rightarrow> string \<Rightarrow> profile \<Rightarrow> int \<Rightarrow> db option" where
  "insert_user d email password ssn prof created =
     (if list_ex (\<lambda>u. u_email u = email) (users d) then None
      else Some (d\<lparr>users := users d @
                     [\<lparr>u_id = Suc (users_seq d), u_email = email, u_password = password,
                       u_ssn = ssn, u_profile = prof, u_createdAt = created\<rparr>],
                   users_seq := Suc (users_seq d)\<rparr>))"

text \<open>\<^verbatim>\<open>db.insert(sessions).values({ userId, token, expiresAt })\<close>.\<close>

definition insert_session :: "db \<Rightarrow> nat \<Rightarrow> string \<Rightarrow> int \<Rightarrow> int \<Rightarrow> db option" where
  "insert_session d userId token expiresAt created =
     (if list_ex (\<lambda>s. s_token s = token) (sessions d) then None
      else Some (d\<lparr>sessions := sessions d @
                     [\<lparr>s_id = Suc (sessions_seq d), s_userId = userId, s_token = token,
                       s_expiresAt = expiresAt, s_createdAt = created\<rparr>],
                   sessions_seq := Suc (sessions_seq d)\<rparr>))"

text \<open>\<^verbatim>\<open>db.delete(sessions).where(eq(sessions.userId, id))\<close>.\<close>

definition delete_sessions_of_user :: "db \<Rightarrow> nat \<Rightarrow> db" where
  "delete_sessions_of_user d userId =
     d\<lparr>sessions := filter (\<lambda>s. s_userId s \<noteq> userId) (sessions d)\<rparr>"

text \<open>\<^verbatim>\<open>db.delete(sessions).where(eq(sessions.token, token))\<close>.\<close>

definition delete_sessions_with_token :: "db \<Rightarrow> string \<Rightarrow> db" where
  "delete_sessions_with_token d token =
     d\<lparr>sessions := filter (\<lambda>s. s_token s \<noteq> token) (sessions d)\<rparr>"

text \<open>\<^verbatim>\<open>db.insert(transactions).values(...)\<close>; the table has no unique column.\<close>

definition insert_transaction ::
  "db \<Rightarrow> int \<Rightarrow> string \<Rightarrow> real \<Rightarrow> string \<Rightarrow> string \<Rightarrow> int \<Rightarrow> int option \<Rightarrow> db" where
  "insert_transaction d accountId ty amount description status created processed =
     d\<lparr>transactions := transactions d @
          [\<lparr>t_id = Suc (transactions_seq d), t_accountId = accountId, t_type = ty,
            t_amount = amount, t_description = description, t_status = status,
            t_createdAt = created, t_processedAt = processed\<rparr>],
       transactions_seq := Suc (transactions_seq d)\<rparr>"

text \<open>
  \<^verbatim>\<open>select().from(transactions).where(eq(transactions.accountId, id))\<close>
  \<^verbatim>\<open>.orderBy(desc(transactions.id)).limit(1).get()\<close>.
\<close>

definition newest_transaction :: "db \<Rightarrow> int \<Rightarrow> transaction_row option" where
  "newest_transaction d accountId =
     (case sort_key (\<lambda>t. - int (t_id t))
             (filter (\<lambda>t. t_accountId t = accountId) (transactions d)) of
        [] \<Rightarrow> None
      | t # _ \<Rightarrow> Some t)"

text \<open>\<^verbatim>\<open>db.update(accounts).set({ balance }).where(eq(accounts.id, id))\<close>.\<close>

definition update_balance :: "db \<Rightarrow> int \<Rightarrow> real \<Rightarrow> db" where
  "update_balance d accountId newBalance =
     d\<lparr>accounts := map (\<lambda>a. if int (a_id a) = accountId then a\<lparr>a_balance := newBalance\<rparr> else a)
                       (accounts d)\<rparr>"

text \<open>
  The lookup both \<^verbatim>\<open>fundAccount\<close> and \<^verbatim>\<open>getTransactions\<close> start with:
  \<^verbatim>\<open>where(and(eq(accounts.id, input.accountId), eq(accounts.userId, ctx.user.id))).get()\<close>.
\<close>

definition account_of_user :: "db \<Rightarrow> int \<Rightarrow> nat \<Rightarrow> account_row option" where
  "account_of_user d accountId userId =
     find (\<lambda>a. int (a_id a) = accountId \<and> a_userId a = userId) (accounts d)"

text \<open>Every identifier in the table came from its sequence.\<close>

definition transactions_ok :: "db \<Rightarrow> bool" where
  "transactions_ok d \<longleftrightarrow> list_all (\<lambda>t. t_id t \<le> transactions_seq d) (transactions d)"

section \<open>Errors\<close>

text \<open>
  The error codes of tRPC the routers use, and \<open>FORBIDDEN\<close>, which they never raise.
  A failure of the input schema is a \<open>ZodError\<close> with the messages of its issues; tRPC
  reports it as \<open>BAD_REQUEST\<close>.
\<close>

datatype code = BAD_REQUEST | UNAUTHORIZED | FORBIDDEN | NOT_FOUND | CONFLICT | INTERNAL_SERVER_ERROR

datatype error = TRPCError code string | ZodError "string list"

fun error_code :: "error \<Rightarrow> code" where
  "error_code (TRPCError c m) = c"
| "error_code (ZodError issues) = BAD_REQUEST"

section \<open>Request context (the module the routers import as ../trpc)\<close>

text \<open>
  The two adapters hand over requests of different shapes. \<open>req_cookies\<close> is the
  \<^verbatim>\<open>cookies\<close> object of a Next.js request, when the request has one; \<open>req_headers_cookie\<close>
  is the property \<^verbatim>\<open>req.headers.cookie\<close>; \<open>req_headers_get\<close> is the method
  \<^verbatim>\<open>req.headers.get\<close> of a Fetch request, when it exists.
\<close>

record request =
  req_cookies :: "(string \<Rightarrow> string option) option"
  req_headers_cookie :: "string option"
  req_headers_get :: "(string \<Rightarrow> string option) option"

text \<open>
  The response is a Node response (which has \<^verbatim>\<open>setHeader\<close>) or the \<^verbatim>\<open>Headers\<close> of a
  Fetch response; either way it is the headers set so far.
\<close>

datatype response = ServerResponse "string \<Rightarrow> string option" | Headers "string \<Rightarrow> string option"

fun response_header :: "response \<Rightarrow> string \<Rightarrow> string option" where
  "response_header (ServerResponse h) name = h name"
| "response_header (Headers h) name = h name"

text \<open>
  \<^verbatim>\<open>if ("setHeader" in ctx.res) ctx.res.setHeader("Set-Cookie", v)\<close>
  \<^verbatim>\<open>else (ctx.res as Headers).set("Set-Cookie", v)\<close>.
\<close>

fun set_cookie_header :: "response \<Rightarrow> string \<Rightarrow> response" where
  "set_cookie_header (ServerResponse h) v = ServerResponse (h(''Set-Cookie'' \<mapsto> v))"
| "set_cookie_header (Headers h) v = Headers (h(''Set-Cookie'' \<mapsto> v))"

record "context" =
  ctx_user :: "user_row option"
  ctx_req :: request
  ctx_res :: response

text \<open>
  What a handler takes from its surroundings: the clock, the time-zone offset of the
  host now (\<open>env_tza\<close>) and the one in force seven days from now (\<open>env_tza_later\<close>, another
  one when daylight saving time changes in between), the environment variables, and the
  libraries \<^verbatim>\<open>jsonwebtoken\<close>, \<^verbatim>\<open>bcryptjs\<close> and \<^verbatim>\<open>crypto\<close>.
  \<^verbatim>\<open>jwt.sign({ userId }, secret, { expiresIn: "7d" })\<close> signs the payload \<^verbatim>\<open>userId\<close>,
  \<^verbatim>\<open>iat\<close> and \<^verbatim>\<open>exp = iat + 7 days\<close> with HMAC-SHA256, where \<^verbatim>\<open>iat\<close> is the clock in whole
  seconds; the token is a function of the secret, the user id and that second, and
  \<open>jwt_sign secret userId iat\<close> is this function. \<open>jwt_verify token secret\<close> is the
  \<^verbatim>\<open>userId\<close> of the payload, or \<open>None\<close> when \<^verbatim>\<open>jwt.verify\<close> throws at this moment.
\<close>

record env =
  env_now :: int
  env_tza :: int
  env_tza_later :: int
  JWT_SECRET :: "string option"
  ENCRYPTION_KEY :: "string option"
  jwt_sign :: "string \<Rightarrow> nat \<Rightarrow> int \<Rightarrow> string"
  jwt_verify :: "string \<Rightarrow> string \<Rightarrow> nat option"
  bcrypt_hash :: "string \<Rightarrow> string"
  bcrypt_compare :: "string \<Rightarrow> string \<Rightarrow> bool"
  randomBytes_hex :: string
  aes_256_cbc_hex :: "string \<Rightarrow> string \<Rightarrow> string \<Rightarrow> string"

text \<open>\<^verbatim>\<open>const [key, ...val] = c.split("="); return [key, val.join("=")]\<close>.\<close>

definition cookie_entry :: "string \<Rightarrow> string \<times> string" where
  "cookie_entry c =
     (case String_split c ''='' of
        [] \<Rightarrow> (c, [])
      | key # val \<Rightarrow> (key, Array_join val ''=''))"

text \<open>
  \<^verbatim>\<open>Object.fromEntries(cookieHeader.split("; ").filter(Boolean).map(...))\<close>: of two entries
  with one key the later wins.
\<close>

definition cookiesObj :: "string \<Rightarrow> string \<Rightarrow> string option" where
  "cookiesObj cookieHeader =
     map_of (rev (map cookie_entry (filter (\<lambda>c. c \<noteq> []) (String_split cookieHeader ''; ''))))"

definition request_cookieHeader :: "request \<Rightarrow> string" where
  "request_cookieHeader r =
     (if truthy (req_headers_cookie r)
      then (case req_headers_cookie r of Some h \<Rightarrow> h | None \<Rightarrow> [])
      else (case req_headers_get r of
              None \<Rightarrow> []
            | Some get \<Rightarrow> (case get ''cookie'' of None \<Rightarrow> [] | Some h \<Rightarrow> h)))"

text \<open>
  \<^verbatim>\<open>createContext\<close>. It only reads the store; the store is returned beside the context so
  that a property can say so. A token that fails \<^verbatim>\<open>jwt.verify\<close> is caught and leaves
  \<open>user\<close> null.
\<close>

definition createContext :: "env \<Rightarrow> db \<Rightarrow> request \<Rightarrow> response \<Rightarrow> context \<times> db" where
  "createContext e d r rs =
     (let token = cookiesObj (request_cookieHeader r) ''session'';
          user =
            (case token of
               None \<Rightarrow> None
             | Some tok \<Rightarrow>
                 if tok = [] then None
                 else
                   (case jwt_verify e tok
                           (case JWT_SECRET e of
                              None \<Rightarrow> ''temporary-secret-for-interview''
                            | Some s \<Rightarrow> if s = [] then ''temporary-secret-for-interview'' else s) of
                      None \<Rightarrow> None
                    | Some decoded_userId \<Rightarrow>
                        (case find (\<lambda>s. s_token s = tok) (sessions d) of
                           None \<Rightarrow> None
                         | Some session \<Rightarrow>
                             let expiresIn = s_expiresAt session - env_now e in
                             if expiresIn > 60000
                             then find (\<lambda>u. u_id u = decoded_userId) (users d)
                             else None)))
      in (\<lparr>ctx_user = user, ctx_req = r, ctx_res = rs\<rparr>, d))"

text \<open>
  \<^verbatim>\<open>protectedProcedure\<close>: the middleware raises \<open>UNAUTHORIZED\<close> when the context has no
  user, and runs the handler with the user otherwise.
\<close>

definition protectedProcedure ::
  "context \<Rightarrow> db \<Rightarrow> (user_row \<Rightarrow> (error + 'a) \<times> db) \<Rightarrow> (error + 'a) \<times> db" where
  "protectedProcedure ctx d handler =
     (case ctx_user ctx of
        None \<Rightarrow> (Inl (TRPCError UNAUTHORIZED ''UNAUTHORIZED''), d)
      | Some user \<Rightarrow> handler user)"

section \<open>The auth router (server/routers/auth.ts)\<close>

subsection \<open>Validation of the date of birth\<close>

text \<open>
  The third refinement of \<^verbatim>\<open>dateOfBirth\<close>, on the calendar fields the two \<^verbatim>\<open>Date\<close>
  objects report: year, \<^verbatim>\<open>getMonth\<close> and \<^verbatim>\<open>getDate\<close> of today and of the date of birth.
\<close>

definition age_on :: "int \<times> int \<times> int \<Rightarrow> int \<times> int \<times> int \<Rightarrow> int" where
  "age_on today dob =
     (let age = fst today - fst dob;
          monthDiff = fst (snd today) - fst (snd dob)
      in if monthDiff < 0 \<or> (monthDiff = 0 \<and> snd (snd today) < snd (snd dob))
         then age - 1 else age)"

definition local_fields :: "int \<Rightarrow> int \<Rightarrow> int \<times> int \<times> int" where
  "local_fields tza t = (getFullYear tza t, getMonth tza t, getDate tza t)"

text \<open>
  The three refinements, on \<open>dob = new Date(val)\<close>; \<open>None\<close> is the invalid date, on which
  every comparison is false. Zod runs all three and collects the messages of those that
  fail; the input is accepted when none does.
\<close>

definition dateOfBirth_issues :: "env \<Rightarrow> int option \<Rightarrow> string list" where
  "dateOfBirth_issues e dob =
     (if dob \<noteq> None then [] else [''Invalid date format'']) @
     (if (case dob of None \<Rightarrow> False | Some t \<Rightarrow> t < env_now e) then []
      else [''Date of birth cannot be in the future'']) @
     (if (case dob of
            None \<Rightarrow> False
          | Some t \<Rightarrow> age_on (local_fields (env_tza e) (env_now e)) (local_fields (env_tza e) t) \<ge> 18)
      then []
      else [''You must be at least 18 years old to open an account''])"

subsection \<open>Secrets\<close>

definition getJwtSecret :: "env \<Rightarrow> string" where
  "getJwtSecret e =
     (if \<not> truthy (JWT_SECRET e) then ''temporary-secret-for-interview''
      else (case JWT_SECRET e of Some s \<Rightarrow> s | None \<Rightarrow> []))"

text \<open>
  \<^verbatim>\<open>encryptSSN\<close>: the initialisation vector in hexadecimal, a colon, the ciphertext in
  hexadecimal. The key is derived from the raw key by SHA-256 inside \<open>aes_256_cbc_hex\<close>.
\<close>

definition encryptSSN :: "env \<Rightarrow> string \<Rightarrow> string" where
  "encryptSSN e ssn =
     (let rawKey = (if truthy (ENCRYPTION_KEY e)
                    then (case ENCRYPTION_KEY e of Some k \<Rightarrow> k | None \<Rightarrow> [])
                    else ''dev-fallback-encryption-key-only'');
          iv = randomBytes_hex e
      in iv @ '':'' @ aes_256_cbc_hex e rawKey iv ssn)"

subsection \<open>signup and login\<close>

record signup_input =
  in_email :: string
  in_password :: string
  in_ssn :: string
  in_profile :: profile

record login_input =
  li_email :: string
  li_password :: string

text \<open>The user returned to the client: the row with \<open>password\<close> and \<open>ssn\<close> undefined.\<close>

record sanitized_user =
  su_id :: nat
  su_email :: string
  su_profile :: profile
  su_createdAt :: int

record auth_result =
  ar_user :: sanitized_user
  ar_token :: string

definition sanitize :: "user_row \<Rightarrow> sanitized_user" where
  "sanitize u =
     \<lparr>su_id = u_id u, su_email = u_email u, su_profile = u_profile u,
      su_createdAt = u_createdAt u\<rparr>"

definition session_cookie :: "string \<Rightarrow> string" where
  "session_cookie token =
     ''session='' @ token @ ''; Path=/; HttpOnly; SameSite=Strict; Max-Age=604800''"

text \<open>
  The code signup and login both run once the user row is known: sign a token, delete
  every session of the user, insert the new session, set the cookie.
  \<^verbatim>\<open>expiresAt.setDate(expiresAt.getDate() + 7)\<close> adds seven days to the local time of day
  and converts back with the offset in force then: seven days from now when the offset
  stays, an hour more or less across a change of daylight saving time. An error of the
  insert is not a \<open>TRPCError\<close>; tRPC reports it as \<open>INTERNAL_SERVER_ERROR\<close>, and the
  sessions deleted before it stay deleted.
\<close>

definition start_session ::
  "env \<Rightarrow> db \<Rightarrow> context \<Rightarrow> user_row \<Rightarrow> (error + auth_result) \<times> db \<times> response" where
  "start_session e d ctx user =
     (let token = jwt_sign e (getJwtSecret e) (u_id user) (env_now e div 1000);
          expiresAt = env_now e + env_tza e + 7 * msPerDay - env_tza_later e;
          d1 = delete_sessions_of_user d (u_id user)
      in case insert_session d1 (u_id user) token expiresAt (env_now e div 1000) of
           None \<Rightarrow>
             (Inl (TRPCError INTERNAL_SERVER_ERROR ''UNIQUE constraint failed: sessions.token''),
              d1, ctx_res ctx)
         | Some d2 \<Rightarrow>
             (Inr \<lparr>ar_user = sanitize user, ar_token = token\<rparr>, d2,
              set_cookie_header (ctx_res ctx) (session_cookie token)))"

text \<open>The mutation of \<^verbatim>\<open>signup\<close>, on an input the schema has accepted.\<close>

definition signup ::
  "env \<Rightarrow> db \<Rightarrow> context \<Rightarrow> signup_input \<Rightarrow> (error + auth_result) \<times> db \<times> response" where
  "signup e d ctx input =
     (case find (\<lambda>u. u_email u = in_email input) (users d) of
        Some existingUser \<Rightarrow> (Inl (TRPCError CONFLICT ''User already exists''), d, ctx_res ctx)
      | None \<Rightarrow>
          (let hashedPassword = bcrypt_hash e (in_password input);
               encryptedSSN = encryptSSN e (in_ssn input)
           in (case insert_user d (in_email input) hashedPassword encryptedSSN
                       (in_profile input) (env_now e div 1000) of
                 None \<Rightarrow>
                   (Inl (TRPCError INTERNAL_SERVER_ERROR
                          ''UNIQUE constraint failed: users.email''), d, ctx_res ctx)
               | Some d1 \<Rightarrow>
                   (case find (\<lambda>u. u_email u = in_email input) (users d1) of
                      None \<Rightarrow>
                        (Inl (TRPCError INTERNAL_SERVER_ERROR ''Failed to create user''), d1,
                         ctx_res ctx)
                    | Some user \<Rightarrow> start_session e d1 ctx user))))"

definition login ::
  "env \<Rightarrow> db \<Rightarrow> context \<Rightarrow> login_input \<Rightarrow> (error + auth_result) \<times> db \<times> response" where
  "login e d ctx input =
     (case find (\<lambda>u. u_email u = li_email input) (users d) of
        None \<Rightarrow> (Inl (TRPCError UNAUTHORIZED ''Invalid credentials''), d, ctx_res ctx)
      | Some user \<Rightarrow>
          if \<not> bcrypt_compare e (li_password input) (u_password user)
          then (Inl (TRPCError UNAUTHORIZED ''Invalid credentials''), d, ctx_res ctx)
          else start_session e d ctx user)"

subsection \<open>logout\<close>

record logout_result =
  success :: bool
  message :: string

text \<open>
  The token logout deletes by: \<^verbatim>\<open>req.cookies.session\<close> when the request has a \<^verbatim>\<open>cookies\<close>
  object; otherwise the text between the first and the second \<^verbatim>\<open>=\<close> of the first piece of
  the cookie header that starts with \<^verbatim>\<open>session=\<close>.
\<close>

definition logout_token :: "request \<Rightarrow> string option" where
  "logout_token r =
     (case req_cookies r of
        Some cookies \<Rightarrow> cookies ''session''
      | None \<Rightarrow>
          (let got = (case req_headers_get r of None \<Rightarrow> None | Some get \<Rightarrow> get ''cookie'');
               cookieHeader = (if truthy got then got else req_headers_cookie r)
           in case cookieHeader of
                None \<Rightarrow> None
              | Some h \<Rightarrow>
                  (case find (\<lambda>c. startsWith c ''session='') (String_split h ''; '') of
                     None \<Rightarrow> None
                   | Some c \<Rightarrow>
                       (case String_split c ''='' of
                          _ # v # _ \<Rightarrow> Some v
                        | _ \<Rightarrow> None))))"

text \<open>
  \<^verbatim>\<open>logout\<close>. \<^verbatim>\<open>if (token) { const result = await db.delete(...); deleted = true; }\<close>:
  the result of the delete is not read.
\<close>

definition logout :: "db \<Rightarrow> context \<Rightarrow> logout_result \<times> db \<times> response" where
  "logout d ctx =
     (case ctx_user ctx of
        None \<Rightarrow> (\<lparr>success = False, message = ''No active session''\<rparr>, d, ctx_res ctx)
      | Some user \<Rightarrow>
          let token = logout_token (ctx_req ctx);
              (deleted, d1) =
                (case token of
                   None \<Rightarrow> (False, d)
                 | Some tok \<Rightarrow>
                     if tok = [] then (False, d)
                     else (True, delete_sessions_with_token d tok));
              rs = set_cookie_header (ctx_res ctx)
                     ''session=; Path=/; HttpOnly; SameSite=Strict; Max-Age=0''
          in (\<lparr>success = deleted,
               message = (if deleted then ''Logged out successfully''
                          else ''Failed to invalidate session'')\<rparr>,
              d1, rs))"

subsection \<open>Sequences of calls\<close>

text \<open>
  A call of the auth router with what it receives, and the store after a list of calls,
  each starting from the store the one before it left (also when it failed).
\<close>

datatype auth_call =
    Signup env "context" signup_input
  | Login env "context" login_input
  | Logout "context"

fun auth_step :: "db \<Rightarrow> auth_call \<Rightarrow> db" where
  "auth_step d (Signup e ctx input) = fst (snd (signup e d ctx input))"
| "auth_step d (Login e ctx input) = fst (snd (login e d ctx input))"
| "auth_step d (Logout ctx) = fst (snd (logout d ctx))"

definition run_auth :: "db \<Rightarrow> auth_call list \<Rightarrow> db" where
  "run_auth d calls = foldl auth_step d calls"

text \<open>The session rows of a user.\<close>

definition sessions_of :: "db \<Rightarrow> nat \<Rightarrow> session_row list" where
  "sessions_of d userId = filter (\<lambda>s. s_userId s = userId) (sessions d)"

text \<open>At most one session row per user: no user id occurs twice in the table.\<close>

definition single_session :: "db \<Rightarrow> bool" where
  "single_session d \<longleftrightarrow> distinct (map s_userId (sessions d))"

text \<open>The unique constraint of \<^verbatim>\<open>sessions.token\<close>.\<close>

definition unique_tokens :: "db \<Rightarrow> bool" where
  "unique_tokens d \<longleftrightarrow> distinct (map s_token (sessions d))"

text \<open>What every call of the auth router keeps true of the session table.\<close>

definition sessions_inv :: "db \<Rightarrow> bool" where
  "sessions_inv d \<longleftrightarrow> single_session d \<and> unique_tokens d"

section \<open>The account router (server/routers/account.ts)\<close>

subsection \<open>Card numbers\<close>

text \<open>
  \<^verbatim>\<open>parseInt(cardNumber[i], 10)\<close> on a one-character string: the value of an ASCII
  digit, and NaN (here \<open>None\<close>) on every other character.
\<close>

definition parseInt10 :: "char \<Rightarrow> nat option" where
  "parseInt10 c =
     (let n = (of_char c :: nat) in if 48 \<le> n \<and> n \<le> 57 then Some (n - 48) else None)"

text \<open>
  The body of the loop of \<^verbatim>\<open>isValidLuhn\<close>. The running sum (\<open>acc\<close> here, \<^verbatim>\<open>sum\<close> in
  the source) is a JavaScript number: \<open>None\<close> is NaN, which every later addition keeps.
  The sums stay far below \<open>2 ^ 53\<close>, so the additions are exact.
\<close>

definition luhn_step :: "nat option \<Rightarrow> bool \<Rightarrow> char \<Rightarrow> nat option" where
  "luhn_step acc isEven c =
     (case parseInt10 c of
        None \<Rightarrow> None
      | Some digit \<Rightarrow>
          let digit = (if isEven
                       then (let digit = digit * 2 in if digit > 9 then digit - 9 else digit)
                       else digit)
          in (case acc of None \<Rightarrow> None | Some s \<Rightarrow> Some (s + digit)))"

text \<open>
  \<^verbatim>\<open>for (let i = cardNumber.length - 1; i >= 0; i--)\<close>: the first argument is \<open>i + 1\<close>,
  so that \<open>0\<close> is the exit of the loop.
\<close>

fun luhn_loop :: "string \<Rightarrow> nat \<Rightarrow> nat option \<Rightarrow> bool \<Rightarrow> nat option" where
  "luhn_loop cardNumber 0 acc isEven = acc"
| "luhn_loop cardNumber (Suc i) acc isEven =
     luhn_loop cardNumber i (luhn_step acc isEven (cardNumber ! i)) (\<not> isEven)"

definition isValidLuhn :: "string \<Rightarrow> bool" where
  "isValidLuhn cardNumber =
     (case luhn_loop cardNumber (length cardNumber) (Some 0) False of
        None \<Rightarrow> False
      | Some n \<Rightarrow> n mod 10 = 0)"

subsection \<open>The Luhn checksum as the specification words it\<close>

text \<open>
  Position \<open>0\<close> is the rightmost digit; every second digit moving left (the odd positions)
  is doubled, and \<open>9\<close> is subtracted from a doubled digit above \<open>9\<close>.
\<close>

definition spec_luhn_term :: "nat list \<Rightarrow> nat \<Rightarrow> nat" where
  "spec_luhn_term ds k =
     (let d = rev ds ! k in
      if odd k then (if 2 * d > 9 then 2 * d - 9 else 2 * d) else d)"

definition spec_luhn_checksum :: "nat list \<Rightarrow> nat" where
  "spec_luhn_checksum ds = sum_list (map (spec_luhn_term ds) [0..<length ds]) mod 10"

text \<open>
  \<^verbatim>\<open>detectCardType\<close>. Each regular expression is anchored at both ends, so it fixes
  the length: \<^verbatim>\<open>/^4\d{12}(\d{3})?$/\<close>, \<^verbatim>\<open>/^5[1-5]\d{14}$/\<close>, \<^verbatim>\<open>/^3[47]\d{13}$/\<close>,
  \<^verbatim>\<open>/^6(?:011|5\d{2})\d{12}$/\<close>.
\<close>

definition detectCardType :: "string \<Rightarrow> string option" where
  "detectCardType cardNumber =
     (if list_all is_decimal_digit cardNumber \<and> take 1 cardNumber = ''4'' \<and>
         (length cardNumber = 13 \<or> length cardNumber = 16) then Some ''visa''
      else if list_all is_decimal_digit cardNumber \<and> length cardNumber = 16 \<and>
         take 1 cardNumber = ''5'' \<and> take 1 (drop 1 cardNumber) \<in> set [''1'', ''2'', ''3'', ''4'', ''5'']
      then Some ''mastercard''
      else if list_all is_decimal_digit cardNumber \<and> length cardNumber = 15 \<and>
         take 1 cardNumber = ''3'' \<and> take 1 (drop 1 cardNumber) \<in> set [''4'', ''7'']
      then Some ''amex''
      else if list_all is_decimal_digit cardNumber \<and> length cardNumber = 16 \<and>
         (take 4 cardNumber = ''6011'' \<or> take 2 cardNumber = ''65'')
      then Some ''discover''
      else None)"

subsection \<open>fundAccount\<close>

datatype funding_type = card | bank

record fundingSource =
  fs_type :: funding_type
  fs_accountNumber :: string
  fs_routingNumber :: "string option"

record fund_input =
  fi_accountId :: int
  fi_amount :: real
  fi_fundingSource :: fundingSource

record fund_result =
  fr_transaction :: "transaction_row option"
  fr_newBalance :: real

text \<open>
  The input schema: \<^verbatim>\<open>amount\<close> between the numbers \<^verbatim>\<open>0.01\<close> and \<^verbatim>\<open>10000\<close>, a non-empty
  \<^verbatim>\<open>accountNumber\<close>. \<^verbatim>\<open>accountId\<close> is any number; the model keeps the integers, since
  no other number is the identifier of a row.
\<close>

definition fundAccount_input_issues :: "fund_input \<Rightarrow> string list" where
  "fundAccount_input_issues input =
     (if fi_amount input < fl (1 / 100) then [''Amount must be at least $0.01''] else []) @
     (if 10000 < fi_amount input then [''Amount cannot exceed $10,000''] else []) @
     (if length (fs_accountNumber (fi_fundingSource input)) < 1
      then [''Account/card number is required''] else [])"

definition funding_type_name :: "funding_type \<Rightarrow> string" where
  "funding_type_name ty = (case ty of card \<Rightarrow> ''card'' | bank \<Rightarrow> ''bank'')"

text \<open>The mutation of \<^verbatim>\<open>fundAccount\<close>, for the user the middleware has resolved.\<close>

definition fundAccount :: "env \<Rightarrow> db \<Rightarrow> user_row \<Rightarrow> fund_input \<Rightarrow> (error + fund_result) \<times> db" where
  "fundAccount e d user input =
     (let source = fi_fundingSource input in
      if fs_type source = bank \<and>
         (\<not> truthy (fs_routingNumber source) \<or>
          \<not> (case fs_routingNumber source of
                None \<Rightarrow> False
              | Some routingNumber \<Rightarrow>
                  length routingNumber = 9 \<and> list_all is_decimal_digit routingNumber))
      then (Inl (TRPCError BAD_REQUEST
                  ''A valid 9-digit routing number is required for bank transfers''), d)
      else if fs_type source = card \<and> detectCardType (fs_accountNumber source) = None
      then (Inl (TRPCError BAD_REQUEST
                  ''Invalid card number. We accept Visa, Mastercard, Amex, and Discover.''), d)
      else if fs_type source = card \<and> \<not> isValidLuhn (fs_accountNumber source)
      then (Inl (TRPCError BAD_REQUEST ''Invalid card number. Please check and try again.''), d)
      else
        let amount = fdiv (Math_round (fmul (fi_amount input) 100)) 100 in
        case account_of_user d (fi_accountId input) (u_id user) of
          None \<Rightarrow> (Inl (TRPCError NOT_FOUND ''Account not found''), d)
        | Some account \<Rightarrow>
            if a_status account \<noteq> ''active''
            then (Inl (TRPCError BAD_REQUEST ''Account is not active''), d)
            else
              let d1 = insert_transaction d (fi_accountId input) ''deposit'' amount
                         (''Funding from '' @ funding_type_name (fs_type source)) ''completed''
                         (env_now e div 1000) (Some (env_now e));
                  transaction = newest_transaction d1 (fi_accountId input);
                  newBalance = fdiv (Math_round (fmul (fadd (a_balance account) amount) 100)) 100;
                  d2 = update_balance d1 (fi_accountId input) newBalance
              in (Inr \<lparr>fr_transaction = transaction, fr_newBalance = newBalance\<rparr>, d2))"

text \<open>The procedure: the middleware, then the input schema, then the mutation.\<close>

definition fundAccount_procedure ::
  "env \<Rightarrow> db \<Rightarrow> context \<Rightarrow> fund_input \<Rightarrow> (error + fund_result) \<times> db" where
  "fundAccount_procedure e d ctx input =
     protectedProcedure ctx d
       (\<lambda>user. case fundAccount_input_issues input of
                 [] \<Rightarrow> fundAccount e d user input
               | issue # issues \<Rightarrow> (Inl (ZodError (issue # issues)), d))"

subsection \<open>getTransactions\<close>

text \<open>
  The rows of the account, \<^verbatim>\<open>orderBy(desc(transactions.createdAt))\<close>, each with the type
  of the account beside it. Rows created in one second keep their insertion order here;
  the storage engine does not fix their order.
\<close>

definition getTransactions ::
  "db \<Rightarrow> user_row \<Rightarrow> int \<Rightarrow> (error + (transaction_row \<times> string) list) \<times> db" where
  "getTransactions d user accountId =
     (case account_of_user d accountId (u_id user) of
        None \<Rightarrow> (Inl (TRPCError NOT_FOUND ''Account not found''), d)
      | Some account \<Rightarrow>
          (Inr (map (\<lambda>transaction. (transaction, a_accountType account))
                 (sort_key (\<lambda>t. - t_createdAt t)
                    (filter (\<lambda>t. t_accountId t = accountId) (transactions d)))), d))"

definition getTransactions_procedure ::
  "db \<Rightarrow> context \<Rightarrow> int \<Rightarrow> (error + (transaction_row \<times> string) list) \<times> db" where
  "getTransactions_procedure d ctx accountId =
     protectedProcedure ctx d (\<lambda>user. getTransactions d user accountId)"

subsection \<open>A sequence of deposits\<close>

text \<open>The calls of \<^verbatim>\<open>fundAccount\<close> for the amounts of a list, one after the other.\<close>

fun fund_all :: "env \<Rightarrow> db \<Rightarrow> context \<Rightarrow> int \<Rightarrow> fundingSource \<Rightarrow> real list \<Rightarrow> db" where
  "fund_all e d ctx accountId source [] = d"
| "fund_all e d ctx accountId source (amount # amounts) =
     fund_all e
       (snd (fundAccount_procedure e d ctx
               \<lparr>fi_accountId = accountId, fi_amount = amount, fi_fundingSource = source\<rparr>))
       ctx accountId source amounts"

text \<open>The amount of a deposit in cents: \<^verbatim>\<open>Math.round(input.amount * 100)\<close>.\<close>

definition cents :: "real \<Rightarrow> int" where
  "cents amount = \<lfloor>fmul amount 100 + 1 / 2\<rfloor>"

text \<open>
  The final balance as the specification words it, \<^verbatim>\<open>round(sum(ai)*100)/100\<close>: once
  with the sum taken in the arithmetic of JavaScript numbers, once with the exact sum.
\<close>

definition spec_final_balance :: "real list \<Rightarrow> real" where
  "spec_final_balance amounts = fdiv (Math_round (fmul (foldl fadd 0 amounts) 100)) 100"

definition spec_final_balance_exact :: "real list \<Rightarrow> real" where
  "spec_final_balance_exact amounts = fdiv (Math_round (sum_list amounts * 100)) 100"

text \<open>
  A funding source that passes the schema and the validation of \<^verbatim>\<open>fundAccount\<close>: a
  non-empty number, and either a card of a known network that passes the Luhn check or
  a bank source with a routing number of nine digits.
\<close>

definition source_accepted :: "fundingSource \<Rightarrow> bool" where
  "source_accepted source \<longleftrightarrow>
     fs_accountNumber source \<noteq> [] \<and>
     (case fs_type source of
        card \<Rightarrow> detectCardType (fs_accountNumber source) \<noteq> None \<and>
                isValidLuhn (fs_accountNumber source)
      | bank \<Rightarrow> (case fs_routingNumber source of
                    None \<Rightarrow> False
                  | Some routingNumber \<Rightarrow>
                      length routingNumber = 9 \<and> list_all is_decimal_digit routingNumber))"

section \<open>Auxiliary definitions for the proofs\<close>

text \<open>
  The Luhn sum of a list of digits read from the right, \<open>e\<close> telling whether the first
  is doubled.
\<close>

fun luhn_sum_from :: "bool \<Rightarrow> nat list \<Rightarrow> nat" where
  "luhn_sum_from e [] = 0"
| "luhn_sum_from e (d # ds) =
     (if e then (if 2 * d > 9 then 2 * d - 9 else 2 * d) else d) + luhn_sum_from (\<not> e) ds"

section \<open>Concrete requests and stores\<close>

text \<open>The data the closed theorems below are evaluated on.\<close>

definition user1 :: user_row where
  "user1 =
     \<lparr>u_id = 1, u_email = ''logic@example.com'', u_password = ''hash-1'', u_ssn = ''iv:ct'',
      u_profile = \<lparr>firstName = ''John'', lastName = ''Doe'', phoneNumber = ''1234567890'',
                   dateOfBirth = ''1990-01-01'', address = ''123 Main St'', city = ''Anytown'',
                   state = ''CA'', zipCode = ''12345''\<rparr>,
      u_createdAt = 0\<rparr>"

text \<open>An environment whose \<^verbatim>\<open>jwt.verify\<close> accepts the token \<^verbatim>\<open>good\<close> for user \<open>1\<close>.\<close>

definition env1 :: env where
  "env1 =
     \<lparr>env_now = 1000000, env_tza = 0, env_tza_later = 0, JWT_SECRET = None,
      ENCRYPTION_KEY = None,
      jwt_sign = (\<lambda>secret userId iat. ''good''),
      jwt_verify = (\<lambda>token secret. if token = ''good'' then Some 1 else None),
      bcrypt_hash = (\<lambda>password. ''hash-1''),
      bcrypt_compare = (\<lambda>password hash. hash = ''hash-1''),
      randomBytes_hex = ''iv'',
      aes_256_cbc_hex = (\<lambda>key iv text. ''ct'')\<rparr>"

text \<open>A Fetch request with the given cookie header, and an empty Node response.\<close>

definition fetch_request :: "string \<Rightarrow> request" where
  "fetch_request cookieHeader =
     \<lparr>req_cookies = None, req_headers_cookie = None,
      req_headers_get = Some (\<lambda>name. if name = ''cookie'' then Some cookieHeader else None)\<rparr>"

definition no_headers :: response where
  "no_headers = ServerResponse (\<lambda>name. None)"

text \<open>A store with user \<open>1\<close> and one session of theirs, expiring at the given time.\<close>

definition store1 :: "string \<Rightarrow> int \<Rightarrow> db" where
  "store1 token expiresAt =
     empty_db\<lparr>users := [user1], users_seq := 1,
              sessions := [\<lparr>s_id = 1, s_userId = 1, s_token = token, s_expiresAt = expiresAt,
                             s_createdAt = 0\<rparr>],
              sessions_seq := 1\<rparr>"

text \<open>The request of the integration test: a plain object with \<^verbatim>\<open>headers.cookie\<close> only.\<close>

definition plain_request :: "string \<Rightarrow> request" where
  "plain_request cookieHeader =
     \<lparr>req_cookies = None, req_headers_cookie = Some cookieHeader, req_headers_get = None\<rparr>"

text \<open>The same environment a thousand seconds later.\<close>

definition env2 :: env where
  "env2 = env1\<lparr>env_now := 2000000\<rparr>"

definition signup1 :: signup_input where
  "signup1 =
     \<lparr>in_email = ''logic@example.com'', in_password = ''Password1!'', in_ssn = ''123456789'',
      in_profile = u_profile user1\<rparr>"

definition login1 :: login_input where
  "login1 = \<lparr>li_email = ''logic@example.com'', li_password = ''Password1!''\<rparr>"

definition anonymous :: "context" where
  "anonymous = \<lparr>ctx_user = None, ctx_req = plain_request '''', ctx_res = no_headers\<rparr>"

text \<open>
  The store of the integration test once user \<open>1\<close> has opened a checking account, the
  authenticated caller of the test, and a deposit from a card.
\<close>

definition account_store :: db where
  "account_store =
     empty_db\<lparr>users := [user1], users_seq := 1,
              accounts := [\<lparr>a_id = 1, a_userId = 1, a_accountNumber = ''0000000001'',
                             a_accountType = ''checking'', a_balance = 0, a_status = ''active'',
                             a_createdAt = 0\<rparr>],
              accounts_seq := 1\<rparr>"

definition caller1 :: "context" where
  "caller1 = \<lparr>ctx_user = Some user1, ctx_req = plain_request '''', ctx_res = no_headers\<rparr>"

definition card_source :: "string \<Rightarrow> fundingSource" where
  "card_source cardNumber =
     \<lparr>fs_type = card, fs_accountNumber = cardNumber, fs_routingNumber = None\<rparr>"

definition deposit :: "int \<Rightarrow> real \<Rightarrow> fundingSource \<Rightarrow> fund_input" where
  "deposit accountId amount source =
     \<lparr>fi_accountId = accountId, fi_amount = amount, fi_fundingSource = source\<rparr>"

text \<open>A second user, who owns no account.\<close>

definition user2 :: user_row where
  "user2 = user1\<lparr>u_id := 2, u_email := ''other@example.com''\<rparr>"

definition caller2 :: "context" where
  "caller2 = \<lparr>ctx_user = Some user2, ctx_req = plain_request '''', ctx_res = no_headers\<rparr>"

text \<open>The two deposits of the integration test, 50 and then 20, and what they store.\<close>

definition transaction_50 :: transaction_row where
  "transaction_50 =
     \<lparr>t_id = 1, t_accountId = 1, t_type = ''deposit'', t_amount = 50,
      t_description = ''Funding from card'', t_status = ''completed'', t_createdAt = 1000,
      t_processedAt = Some 1000000\<rparr>"

definition transaction_20 :: transaction_row where
  "transaction_20 =
     \<lparr>t_id = 2, t_accountId = 1, t_type = ''deposit'', t_amount = 20,
      t_description = ''Funding from card'', t_status = ''completed'', t_createdAt = 2000,
      t_processedAt = Some 2000000\<rparr>"

definition store_after_50 :: db where
  "store_after_50 =
     account_store\<lparr>transactions := [transaction_50], transactions_seq := 1,
                   accounts := [\<lparr>a_id = 1, a_userId = 1, a_accountNumber = ''0000000001'',
                                  a_accountType = ''checking'', a_balance = 50,
                                  a_status = ''active'', a_createdAt = 0\<rparr>]\<rparr>"

text \<open>The numbers the literals \<^verbatim>\<open>1.05\<close> and \<^verbatim>\<open>1.004\<close> denote.\<close>

definition js_1_05 :: real where
  "js_1_05 = fl (105 / 100)"

definition js_1_004 :: real where
  "js_1_004 = fl (1004 / 1000)"

text \<open>
  Noon of 2 November 2026 on a host five hours west of Greenwich (17:00 UTC), and the same
  moment on a host that keeps UTC.
\<close>

definition env_west :: env where
  "env_west = env1\<lparr>env_now := 1793638800000, env_tza := - 18000000,
                    env_tza_later := - 18000000\<rparr>"

definition env_utc :: env where
  "env_utc = env1\<lparr>env_now := 1793638800000, env_tza := 0\<rparr>"

text \<open>
  A signing function that, like HMAC-SHA256 over the payload, gives one token for each
  user id and second: the two written out in decimal. \<open>jwt_verify_example\<close> accepts the
  tokens of user \<open>1\<close>.
\<close>

definition jwt_sign_example :: "string \<Rightarrow> nat \<Rightarrow> int \<Rightarrow> string" where
  "jwt_sign_example secret userId iat = ''jwt-'' @ decimal userId @ ''-'' @ decimal (nat iat)"

definition jwt_verify_example :: "string \<Rightarrow> string \<Rightarrow> nat option" where
  "jwt_verify_example token secret =
     (if take 6 token = ''jwt-1-'' then Some 1 else None)"

text \<open>
  A signup at 17:00:00.000 UTC of 2 November 2026, a login 400 milliseconds later, in the
  same second, and a login in the next second.
\<close>

definition env_signup :: env where
  "env_signup = env1\<lparr>env_now := 1793638800000, jwt_sign := jwt_sign_example,
                      jwt_verify := jwt_verify_example\<rparr>"

definition env_login :: env where
  "env_login = env_signup\<lparr>env_now := 1793638800400\<rparr>"

definition env_login_later :: env where
  "env_login_later = env_signup\<lparr>env_now := 1793638801200\<rparr>"

section \<open>Properties of the card-number validation\<close>

lemma parseInt10_digit:
  "is_decimal_digit c \<Longrightarrow> parseInt10 c = Some (digit_value c)"
  by (simp add: parseInt10_def is_decimal_digit_def digit_value_def Let_def)

lemma luhn_step_digit:
  "is_decimal_digit c \<Longrightarrow>
   luhn_step (Some s) e c = Some (s + luhn_sum_from e [digit_value c])"
  by (simp add: luhn_step_def parseInt10_digit Let_def mult.commute)

lemma luhn_loop_digits:
  "k \<le> length s \<Longrightarrow> \<forall>c \<in> set s. is_decimal_digit c \<Longrightarrow>
   luhn_loop s k (Some acc) e = Some (acc + luhn_sum_from e (rev (map digit_value (take k s))))"
proof (induction k arbitrary: acc e)
  case 0
  then show ?case by simp
next
  case (Suc k)
  then have lt: "k < length s" by simp
  then have dig: "is_decimal_digit (s ! k)" using Suc.prems(2) by simp
  have tk: "take (Suc k) s = take k s @ [s ! k]"
    using lt by (simp add: take_Suc_conv_app_nth)
  have "luhn_loop s (Suc k) (Some acc) e =
        luhn_loop s k (Some (acc + luhn_sum_from e [digit_value (s ! k)])) (\<not> e)"
    by (simp add: luhn_step_digit [OF dig])
  also have "\<dots> = Some (acc + luhn_sum_from e [digit_value (s ! k)]
                     + luhn_sum_from (\<not> e) (rev (map digit_value (take k s))))"
    using Suc.IH [of "acc + luhn_sum_from e [digit_value (s ! k)]" "\<not> e"] lt Suc.prems(2)
    by simp
  finally show ?case by (simp add: tk)
qed

lemma luhn_sum_from_indexed:
  "luhn_sum_from e xs =
   sum_list (map (\<lambda>k. if odd k \<noteq> e
                        then (if 2 * (xs ! k) > 9 then 2 * (xs ! k) - 9 else 2 * (xs ! k))
                        else xs ! k)
                 [0..<length xs])"
proof (induction xs arbitrary: e)
  case Nil
  then show ?case by simp
next
  case (Cons d ds)
  have shift: "[0..<length (d # ds)] = 0 # map Suc [0..<length ds]"
    by (simp add: upt_conv_Cons map_Suc_upt del: upt_Suc)
  have flip: "(even k = (\<not> e)) = (odd k = e)" for k :: nat
    by auto
  show ?case
    unfolding shift
    by (simp add: Cons.IH [of "\<not> e"] comp_def flip del: upt_Suc cong: if_cong)
qed

lemma luhn_sum_from_spec:
  "luhn_sum_from False (rev ds) mod 10 = spec_luhn_checksum ds"
proof -
  have "luhn_sum_from False (rev ds) = sum_list (map (spec_luhn_term ds) [0..<length ds])"
    unfolding luhn_sum_from_indexed [of False "rev ds"]
    by (simp add: spec_luhn_term_def Let_def cong: map_cong)
  then show ?thesis by (simp add: spec_luhn_checksum_def)
qed

text \<open>
  C2. On a card number made of decimal digits only, \<open>isValidLuhn\<close> returns true exactly
  when the Luhn checksum (rightmost digit first, every second digit doubled, \<open>9\<close> taken off
  a doubled digit above \<open>9\<close>, the sum taken modulo \<open>10\<close>) is \<open>0\<close>.
\<close>

theorem isValidLuhn_iff_checksum:
  assumes "\<forall>c \<in> set cardNumber. is_decimal_digit c"
  shows "isValidLuhn cardNumber \<longleftrightarrow> spec_luhn_checksum (map digit_value cardNumber) = 0"
proof -
  have "luhn_loop cardNumber (length cardNumber) (Some 0) False =
        Some (luhn_sum_from False (rev (map digit_value cardNumber)))"
    using luhn_loop_digits [of "length cardNumber" cardNumber 0 False] assms by simp
  then show ?thesis
    by (simp add: isValidLuhn_def luhn_sum_from_spec)
qed

theorem isValidLuhn_iff_checksum_witness:
  "list_all is_decimal_digit ''4111111111111111'' \<and>
   isValidLuhn ''4111111111111111'' \<and>
   spec_luhn_checksum (map digit_value ''4111111111111111'') = 0 \<and>
   list_all is_decimal_digit ''4111111111111112'' \<and>
   \<not> isValidLuhn ''4111111111111112'' \<and>
   spec_luhn_checksum (map digit_value ''4111111111111112'') \<noteq> 0"
proof -
  have d1: "\<forall>c \<in> set ''4111111111111111''. is_decimal_digit c"
    by (simp add: is_decimal_digit_def)
  have d2: "\<forall>c \<in> set ''4111111111111112''. is_decimal_digit c"
    by (simp add: is_decimal_digit_def)
  have v1: "isValidLuhn ''4111111111111111''" by code_simp
  have v2: "\<not> isValidLuhn ''4111111111111112''" by code_simp
  show ?thesis
    using d1 d2 v1 v2 isValidLuhn_iff_checksum [OF d1] isValidLuhn_iff_checksum [OF d2]
    unfolding list_all_iff by blast
qed

section \<open>Properties of logout\<close>

lemma set_cookie_header_get:
  "response_header (set_cookie_header rs v) ''Set-Cookie'' = Some v"
  by (cases rs) simp_all

lemmas js_string_simps =
  String_split_def startsWith_def truthy_def cookie_entry_def cookiesObj_def

text \<open>An authenticated logout reports success exactly when it found a non-empty token.\<close>

lemma logout_success_iff_token:
  assumes "ctx_user ctx \<noteq> None"
  shows "success (fst (logout d ctx)) \<longleftrightarrow> truthy (logout_token (ctx_req ctx))"
proof -
  from assms obtain user where u: "ctx_user ctx = Some user" by auto
  show ?thesis
    unfolding logout_def u
    by (simp add: Let_def split_beta truthy_def split: option.splits)
qed

text \<open>
  C5. The claim: an authenticated logout reports success if and only if a session row
  matching the token of the cookie header existed and was deleted. The code reports
  success whenever it found a token, whether or not a row matched. First input: an
  authenticated context whose cookie header carries the token \<^verbatim>\<open>stale\<close>, over a store
  with no session at all. Second input, end to end: the header
  \<^verbatim>\<open>session=stale; session=good\<close> over a store whose only session has the token
  \<^verbatim>\<open>good\<close>; context resolution reads the last \<^verbatim>\<open>session\<close> cookie and authenticates, logout
  reads the first, deletes nothing and reports success.
\<close>

theorem logout_success_without_session_row:
  "success (fst (logout empty_db
      \<lparr>ctx_user = Some user1, ctx_req = fetch_request ''session=stale'', ctx_res = no_headers\<rparr>)) \<and>
   sessions (fst (snd (logout empty_db
      \<lparr>ctx_user = Some user1, ctx_req = fetch_request ''session=stale'', ctx_res = no_headers\<rparr>))) = [] \<and>
   ctx_user (fst (createContext env1 (store1 ''good'' 2000000)
      (fetch_request ''session=stale; session=good'') no_headers)) = Some user1 \<and>
   logout_token (fetch_request ''session=stale; session=good'') = Some ''stale'' \<and>
   \<not> list_ex (\<lambda>s. s_token s = ''stale'') (sessions (store1 ''good'' 2000000)) \<and>
   success (fst (logout (store1 ''good'' 2000000)
      (fst (createContext env1 (store1 ''good'' 2000000)
         (fetch_request ''session=stale; session=good'') no_headers)))) \<and>
   sessions (fst (snd (logout (store1 ''good'' 2000000)
      (fst (createContext env1 (store1 ''good'' 2000000)
         (fetch_request ''session=stale; session=good'') no_headers))))) =
     sessions (store1 ''good'' 2000000)"
  by (simp add: logout_def logout_token_def createContext_def request_cookieHeader_def
      fetch_request_def store1_def empty_db_def env1_def user1_def no_headers_def
      delete_sessions_with_token_def js_string_simps Let_def)

text \<open>
  C10. Whenever the context of a logout call has a user, the response sets the session
  cookie to empty with \<^verbatim>\<open>Max-Age=0\<close>, whatever the reported success.
\<close>

theorem logout_clears_cookie:
  assumes "ctx_user ctx \<noteq> None"
  shows "response_header (snd (snd (logout d ctx))) ''Set-Cookie'' =
           Some ''session=; Path=/; HttpOnly; SameSite=Strict; Max-Age=0''"
proof -
  from assms obtain user where u: "ctx_user ctx = Some user" by auto
  show ?thesis
    unfolding logout_def u
    by (simp add: Let_def split_beta set_cookie_header_get)
qed

text \<open>The negative path: the caller of the integration test, a user and an empty cookie header.\<close>

theorem logout_clears_cookie_witness:
  "ctx_user \<lparr>ctx_user = Some user1, ctx_req = plain_request '''', ctx_res = no_headers\<rparr> \<noteq> None \<and>
   \<not> success (fst (logout empty_db
      \<lparr>ctx_user = Some user1, ctx_req = plain_request '''', ctx_res = no_headers\<rparr>)) \<and>
   response_header (snd (snd (logout empty_db
      \<lparr>ctx_user = Some user1, ctx_req = plain_request '''', ctx_res = no_headers\<rparr>))) ''Set-Cookie'' =
     Some ''session=; Path=/; HttpOnly; SameSite=Strict; Max-Age=0''"
proof -
  have u: "ctx_user \<lparr>ctx_user = Some user1, ctx_req = plain_request '''', ctx_res = no_headers\<rparr> \<noteq> None"
    by simp
  have f: "\<not> success (fst (logout empty_db
      \<lparr>ctx_user = Some user1, ctx_req = plain_request '''', ctx_res = no_headers\<rparr>))"
    by (simp add: logout_def logout_token_def plain_request_def js_string_simps Let_def)
  show ?thesis
    using u f logout_clears_cookie [OF u, of empty_db] by simp
qed

section \<open>Properties of context resolution\<close>





section \<open>The single-session invariant\<close>

lemma single_session_length:
  "single_session d \<longleftrightarrow> (\<forall>userId. length (sessions_of d userId) \<le> 1)"
proof -
  have "distinct (map s_userId xs) \<longleftrightarrow>
        (\<forall>userId. length (filter (\<lambda>s. s_userId s = userId) xs) \<le> 1)" for xs :: "session_row list"
  proof (induction xs)
    case Nil
    then show ?case by simp
  next
    case (Cons x xs)
    have none: "s_userId x \<notin> s_userId ` set xs \<longleftrightarrow> filter (\<lambda>s. s_userId s = s_userId x) xs = []"
      by (auto simp: filter_empty_conv image_iff)
    show ?case
    proof
      assume "distinct (map s_userId (x # xs))"
      then show "\<forall>userId. length (filter (\<lambda>s. s_userId s = userId) (x # xs)) \<le> 1"
        using Cons.IH none by auto
    next
      assume h: "\<forall>userId. length (filter (\<lambda>s. s_userId s = userId) (x # xs)) \<le> 1"
      then have "length (filter (\<lambda>s. s_userId s = s_userId x) (x # xs)) \<le> 1" by blast
      then have "filter (\<lambda>s. s_userId s = s_userId x) xs = []" by simp
      moreover have "\<forall>userId. length (filter (\<lambda>s. s_userId s = userId) xs) \<le> 1"
      proof
        fix userId
        have "length (filter (\<lambda>s. s_userId s = userId) xs) \<le>
              length (filter (\<lambda>s. s_userId s = userId) (x # xs))" by simp
        then show "length (filter (\<lambda>s. s_userId s = userId) xs) \<le> 1"
          using h order_trans by blast
      qed
      ultimately show "distinct (map s_userId (x # xs))"
        using Cons.IH none by simp
    qed
  qed
  then show ?thesis
    by (simp add: single_session_def sessions_of_def)
qed

lemma sessions_inv_empty: "sessions_inv empty_db"
  by (simp add: sessions_inv_def single_session_def unique_tokens_def empty_db_def)

lemma sessions_inv_delete_user:
  "sessions_inv d \<Longrightarrow> sessions_inv (delete_sessions_of_user d userId)"
  by (simp add: sessions_inv_def single_session_def unique_tokens_def
      delete_sessions_of_user_def distinct_map_filter)

lemma sessions_inv_delete_token:
  "sessions_inv d \<Longrightarrow> sessions_inv (delete_sessions_with_token d token)"
  by (simp add: sessions_inv_def single_session_def unique_tokens_def
      delete_sessions_with_token_def distinct_map_filter)

lemma sessions_inv_insert_user:
  "insert_user d email password ssn prof created = Some d' \<Longrightarrow> sessions d' = sessions d"
  by (auto simp: insert_user_def split: if_splits)

lemma insert_session_rows:
  assumes "insert_session d userId token expiresAt created = Some d'"
  shows "sessions d' = sessions d @
           [\<lparr>s_id = Suc (sessions_seq d), s_userId = userId, s_token = token,
             s_expiresAt = expiresAt, s_createdAt = created\<rparr>]"
    and "token \<notin> s_token ` set (sessions d)"
    and "users d' = users d"
  using assms by (auto simp: insert_session_def list_ex_iff split: if_splits)

text \<open>What a successful start of a session leaves in the table.\<close>

lemma start_session_rows:
  assumes "start_session e d ctx user = (Inr r, d', rs)"
  shows "\<exists>row. sessions d' = filter (\<lambda>s. s_userId s \<noteq> u_id user) (sessions d) @ [row] \<and>
               s_userId row = u_id user \<and> s_token row = ar_token r \<and>
               ar_token r \<notin> s_token ` set (filter (\<lambda>s. s_userId s \<noteq> u_id user) (sessions d))"
    and "su_id (ar_user r) = u_id user"
    and "users d' = users d"
proof -
  let ?d1 = "delete_sessions_of_user d (u_id user)"
  let ?token = "jwt_sign e (getJwtSecret e) (u_id user) (env_now e div 1000)"
  from assms obtain d2 where ins:
    "insert_session ?d1 (u_id user) ?token
       (env_now e + env_tza e + 7 * msPerDay - env_tza_later e) (env_now e div 1000) = Some d2"
    and out: "r = \<lparr>ar_user = sanitize user, ar_token = ?token\<rparr>" "d' = d2"
    by (auto simp: start_session_def Let_def split: option.splits)
  have d1: "sessions ?d1 = filter (\<lambda>s. s_userId s \<noteq> u_id user) (sessions d)"
    by (simp add: delete_sessions_of_user_def)
  show "\<exists>row. sessions d' = filter (\<lambda>s. s_userId s \<noteq> u_id user) (sessions d) @ [row] \<and>
               s_userId row = u_id user \<and> s_token row = ar_token r \<and>
               ar_token r \<notin> s_token ` set (filter (\<lambda>s. s_userId s \<noteq> u_id user) (sessions d))"
    using insert_session_rows(1,2) [OF ins] out d1 by simp
  show "su_id (ar_user r) = u_id user"
    using out by (simp add: sanitize_def)
  show "users d' = users d"
    using insert_session_rows(3) [OF ins] out by (simp add: delete_sessions_of_user_def)
qed

lemma sessions_inv_start_session:
  assumes "sessions_inv d"
  shows "sessions_inv (fst (snd (start_session e d ctx user)))"
proof -
  let ?d1 = "delete_sessions_of_user d (u_id user)"
  let ?token = "jwt_sign e (getJwtSecret e) (u_id user) (env_now e div 1000)"
  have inv1: "sessions_inv ?d1"
    using assms by (rule sessions_inv_delete_user)
  show ?thesis
  proof (cases "insert_session ?d1 (u_id user) ?token
                  (env_now e + env_tza e + 7 * msPerDay - env_tza_later e) (env_now e div 1000)")
    case None
    then show ?thesis
      using inv1 by (simp add: start_session_def Let_def)
  next
    case (Some d2)
    have d1: "sessions ?d1 = filter (\<lambda>s. s_userId s \<noteq> u_id user) (sessions d)"
      by (simp add: delete_sessions_of_user_def)
    have "sessions_inv d2"
      using inv1 insert_session_rows(1,2) [OF Some] d1
      by (auto simp: sessions_inv_def single_session_def unique_tokens_def)
    then show ?thesis
      using Some by (simp add: start_session_def Let_def)
  qed
qed

lemma sessions_inv_signup:
  assumes "sessions_inv d"
  shows "sessions_inv (fst (snd (signup e d ctx input)))"
proof -
  have same: "sessions_inv d1" if "insert_user d em pw sn pr cr = Some d1" for d1 em pw sn pr cr
    using assms sessions_inv_insert_user [OF that]
    by (simp add: sessions_inv_def single_session_def unique_tokens_def)
  show ?thesis
    unfolding signup_def
    by (auto simp: Let_def assms same sessions_inv_start_session split: option.splits)
qed

lemma sessions_inv_login:
  assumes "sessions_inv d"
  shows "sessions_inv (fst (snd (login e d ctx input)))"
  unfolding login_def
  by (auto simp: assms sessions_inv_start_session split: option.splits)

lemma sessions_inv_logout:
  assumes "sessions_inv d"
  shows "sessions_inv (fst (snd (logout d ctx)))"
  unfolding logout_def
  by (auto simp: Let_def split_beta assms sessions_inv_delete_token split: option.splits)

lemma sessions_inv_step: "sessions_inv d \<Longrightarrow> sessions_inv (auth_step d c)"
  by (cases c) (simp_all add: sessions_inv_signup sessions_inv_login sessions_inv_logout)

lemma sessions_inv_run: "sessions_inv d \<Longrightarrow> sessions_inv (run_auth d calls)"
  unfolding run_auth_def
  by (induction calls arbitrary: d) (simp_all add: sessions_inv_step)

text \<open>After a session has started, the user has one row, with the new token.\<close>

lemma start_session_only_token:
  assumes "start_session e d ctx user = (Inr r, d', rs)"
  shows "map s_token (sessions_of d' (su_id (ar_user r))) = [ar_token r]"
proof -
  from start_session_rows(1) [OF assms] obtain row where
    rows: "sessions d' = filter (\<lambda>s. s_userId s \<noteq> u_id user) (sessions d) @ [row]"
    and row: "s_userId row = u_id user" "s_token row = ar_token r"
    by blast
  show ?thesis
    by (simp add: sessions_of_def rows row start_session_rows(2) [OF assms])
qed

text \<open>A row of the user with another token has no row left with its token.\<close>

lemma start_session_revokes:
  assumes ok: "start_session e d ctx user = (Inr r, d', rs)"
    and inv: "unique_tokens d"
    and old: "s \<in> set (sessions_of d (su_id (ar_user r)))" "s_token s \<noteq> ar_token r"
  shows "find (\<lambda>s'. s_token s' = s_token s) (sessions d') = None"
proof -
  from start_session_rows(1) [OF ok] obtain row where
    rows: "sessions d' = filter (\<lambda>s. s_userId s \<noteq> u_id user) (sessions d) @ [row]"
    and row: "s_userId row = u_id user" "s_token row = ar_token r"
    by blast
  have uid: "su_id (ar_user r) = u_id user"
    by (rule start_session_rows(2) [OF ok])
  have s: "s \<in> set (sessions d)" "s_userId s = u_id user"
    using old(1) uid by (simp_all add: sessions_of_def)
  have inj: "inj_on s_token (set (sessions d))"
    using inv by (simp add: unique_tokens_def distinct_map)
  have "s_token s' \<noteq> s_token s" if "s' \<in> set (sessions d')" for s'
  proof (cases "s' = row")
    case True
    then show ?thesis using row(2) old(2) by simp
  next
    case False
    then have in_d: "s' \<in> set (sessions d)" and other: "s_userId s' \<noteq> u_id user"
      using that rows by auto
    show ?thesis
    proof
      assume "s_token s' = s_token s"
      then have "s' = s" using inj in_d s(1) by (auto dest: inj_onD)
      then show False using other s(2) by simp
    qed
  qed
  then show ?thesis
    by (simp add: find_None_iff)
qed

lemma login_start_session:
  "login e d ctx input = (Inr r, d', rs) \<Longrightarrow>
   \<exists>user. start_session e d ctx user = (Inr r, d', rs)"
  by (auto simp: login_def split: option.splits if_splits)

lemma signup_start_session:
  "signup e d ctx input = (Inr r, d', rs) \<Longrightarrow>
   \<exists>d1 user. sessions d1 = sessions d \<and> start_session e d1 ctx user = (Inr r, d', rs)"
  by (auto simp: signup_def Let_def split: option.splits dest: sessions_inv_insert_user)

text \<open>
  After any sequence of signup, login and logout calls on an empty store, no user has
  more than one session row. A successful login or signup on such a store leaves the
  user exactly one row, the one with the token it returns; and every row the user had
  with another token is gone with its token.
\<close>

lemma single_session_reachable:
  "single_session (run_auth empty_db calls) \<and>
   (\<forall>e ctx input r d' rs.
      login e (run_auth empty_db calls) ctx input = (Inr r, d', rs) \<longrightarrow>
        single_session d' \<and>
        map s_token (sessions_of d' (su_id (ar_user r))) = [ar_token r] \<and>
        (\<forall>s \<in> set (sessions_of (run_auth empty_db calls) (su_id (ar_user r))).
           s_token s \<noteq> ar_token r \<longrightarrow>
           find (\<lambda>s'. s_token s' = s_token s) (sessions d') = None)) \<and>
   (\<forall>e ctx input r d' rs.
      signup e (run_auth empty_db calls) ctx input = (Inr r, d', rs) \<longrightarrow>
        single_session d' \<and>
        map s_token (sessions_of d' (su_id (ar_user r))) = [ar_token r])"
proof -
  let ?d = "run_auth empty_db calls"
  have inv: "sessions_inv ?d"
    using sessions_inv_empty by (rule sessions_inv_run)
  have one: "single_session ?d"
    using inv by (simp add: sessions_inv_def)
  have li: "single_session d' \<and>
        map s_token (sessions_of d' (su_id (ar_user r))) = [ar_token r] \<and>
        (\<forall>s \<in> set (sessions_of ?d (su_id (ar_user r))).
           s_token s \<noteq> ar_token r \<longrightarrow>
           find (\<lambda>s'. s_token s' = s_token s) (sessions d') = None)"
    if ok: "login e ?d ctx input = (Inr r, d', rs)" for e ctx input r d' rs
  proof -
    from login_start_session [OF ok] obtain user where
      st: "start_session e ?d ctx user = (Inr r, d', rs)" by blast
    have "sessions_inv (fst (snd (login e ?d ctx input)))"
      using inv by (rule sessions_inv_login)
    then have "single_session d'"
      using ok by (simp add: sessions_inv_def)
    moreover have "unique_tokens ?d"
      using inv by (simp add: sessions_inv_def)
    ultimately show ?thesis
      using start_session_only_token [OF st] start_session_revokes [OF st] by blast
  qed
  have su: "single_session d' \<and> map s_token (sessions_of d' (su_id (ar_user r))) = [ar_token r]"
    if ok: "signup e ?d ctx input = (Inr r, d', rs)" for e ctx input r d' rs
  proof -
    from signup_start_session [OF ok] obtain d1 user where
      st: "start_session e d1 ctx user = (Inr r, d', rs)" by blast
    have "sessions_inv (fst (snd (signup e ?d ctx input)))"
      using inv by (rule sessions_inv_signup)
    then have "single_session d'"
      using ok by (simp add: sessions_inv_def)
    then show ?thesis
      using start_session_only_token [OF st] by simp
  qed
  show ?thesis
    using one li su by blast
qed

lemmas store_simps =
  signup_def login_def start_session_def insert_user_def insert_session_def
  delete_sessions_of_user_def delete_sessions_with_token_def encryptSSN_def getJwtSecret_def
  sanitize_def session_cookie_def run_auth_def empty_db_def msPerDay_def

lemmas example_simps =
  env1_def env2_def user1_def signup1_def login1_def anonymous_def plain_request_def
  fetch_request_def no_headers_def store1_def

section \<open>Properties of fundAccount and getTransactions\<close>

lemma fundAccount_procedure_user:
  "ctx_user ctx = Some user \<Longrightarrow>
   fundAccount_procedure e d ctx input =
     (case fundAccount_input_issues input of
        [] \<Rightarrow> fundAccount e d user input
      | issue # issues \<Rightarrow> (Inl (ZodError (issue # issues)), d))"
  by (simp add: fundAccount_procedure_def protectedProcedure_def)

text \<open>
  C6. The caller is authenticated and the funding source fails validation: a bank source
  whose routing number is missing or is not nine digits, or a card source whose number
  has no recognised network or fails the Luhn check. Then the call fails with a Bad
  Request error and the store is left as it was. A card number with no recognised
  network is rejected with the message of the network check, whatever the Luhn check
  says of it.
\<close>

theorem fundAccount_rejects_invalid_source:
  assumes "ctx_user ctx = Some user"
    and "(fs_type (fi_fundingSource input) = bank \<and>
          (case fs_routingNumber (fi_fundingSource input) of
             None \<Rightarrow> True
           | Some routingNumber \<Rightarrow>
               \<not> (length routingNumber = 9 \<and> list_all is_decimal_digit routingNumber))) \<or>
         (fs_type (fi_fundingSource input) = card \<and>
          (detectCardType (fs_accountNumber (fi_fundingSource input)) = None \<or>
           \<not> isValidLuhn (fs_accountNumber (fi_fundingSource input))))"
  shows "(\<exists>err. fundAccount_procedure e d ctx input = (Inl err, d) \<and>
                error_code err = BAD_REQUEST) \<and>
         (fundAccount_input_issues input = [] \<and>
          fs_type (fi_fundingSource input) = card \<and>
          detectCardType (fs_accountNumber (fi_fundingSource input)) = None \<longrightarrow>
          fst (fundAccount_procedure e d ctx input) =
            Inl (TRPCError BAD_REQUEST
                  ''Invalid card number. We accept Visa, Mastercard, Amex, and Discover.''))"
proof -
  have body: "\<exists>err. fundAccount e d user input = (Inl err, d) \<and> error_code err = BAD_REQUEST"
    using assms(2)
    by (auto simp: fundAccount_def Let_def truthy_def split: option.splits)
  have proc: "\<exists>err. fundAccount_procedure e d ctx input = (Inl err, d) \<and>
                error_code err = BAD_REQUEST"
    using body
    by (cases "fundAccount_input_issues input")
       (auto simp: fundAccount_procedure_user [OF assms(1)])
  have network: "fst (fundAccount_procedure e d ctx input) =
            Inl (TRPCError BAD_REQUEST
                  ''Invalid card number. We accept Visa, Mastercard, Amex, and Discover.'')"
    if "fundAccount_input_issues input = []" "fs_type (fi_fundingSource input) = card"
      "detectCardType (fs_accountNumber (fi_fundingSource input)) = None"
    using that
    by (simp add: fundAccount_procedure_user [OF assms(1)] fundAccount_def Let_def)
  show ?thesis
    using proc network by blast
qed

lemmas number_simps =
  pow2_def ilog2_def round_half_even_def fl_def fadd_def fmul_def fdiv_def Math_round_def
  compute_bitlen

lemmas account_simps =
  fundAccount_procedure_def protectedProcedure_def fundAccount_input_issues_def fundAccount_def
  detectCardType_def account_of_user_def is_decimal_digit_def truthy_def

lemmas account_example_simps =
  account_store_def caller1_def card_source_def deposit_def user1_def empty_db_def

lemma visa_4111111111111112: "\<not> isValidLuhn ''4111111111111112''"
  by code_simp

lemma visa_4111111111111111: "isValidLuhn ''4111111111111111''"
  by code_simp

lemma unknown_1234567812345670: "isValidLuhn ''1234567812345670''"
  by code_simp

lemma fl_cent: "fl (1 / 100) = 5764607523034235 / 576460752303423488"
  by (simp add: number_simps Let_def)

text \<open>
  A Visa number that fails the Luhn check, a number of no network that passes it, and a
  bank source without a routing number: each is refused, with its own message, and the
  store stays as it was.
\<close>

theorem fundAccount_rejects_invalid_source_witness:
  "isValidLuhn ''1234567812345670'' \<and>
   fundAccount_procedure env1 account_store caller1 (deposit 1 50 (card_source ''4111111111111112'')) =
     (Inl (TRPCError BAD_REQUEST ''Invalid card number. Please check and try again.''),
      account_store) \<and>
   fundAccount_procedure env1 account_store caller1 (deposit 1 50 (card_source ''1234567812345670'')) =
     (Inl (TRPCError BAD_REQUEST
            ''Invalid card number. We accept Visa, Mastercard, Amex, and Discover.''),
      account_store) \<and>
   fundAccount_procedure env1 account_store caller1
       (deposit 1 50 \<lparr>fs_type = bank, fs_accountNumber = ''12345678'', fs_routingNumber = None\<rparr>) =
     (Inl (TRPCError BAD_REQUEST
            ''A valid 9-digit routing number is required for bank transfers''),
      account_store)"
proof -
  let ?input = "deposit 1 50 (card_source ''4111111111111112'')"
  have u: "ctx_user caller1 = Some user1"
    by (simp add: caller1_def)
  have bad: "(fs_type (fi_fundingSource ?input) = bank \<and>
          (case fs_routingNumber (fi_fundingSource ?input) of
             None \<Rightarrow> True
           | Some routingNumber \<Rightarrow>
               \<not> (length routingNumber = 9 \<and> list_all is_decimal_digit routingNumber))) \<or>
         (fs_type (fi_fundingSource ?input) = card \<and>
          (detectCardType (fs_accountNumber (fi_fundingSource ?input)) = None \<or>
           \<not> isValidLuhn (fs_accountNumber (fi_fundingSource ?input))))"
    by (simp add: deposit_def card_source_def visa_4111111111111112)
  have luhn: "fst (fundAccount_procedure env1 account_store caller1 ?input) =
      Inl (TRPCError BAD_REQUEST ''Invalid card number. Please check and try again.'')"
    by (simp add: account_simps account_example_simps fl_cent visa_4111111111111112 Let_def)
  have network: "fundAccount_procedure env1 account_store caller1
      (deposit 1 50 (card_source ''1234567812345670'')) =
     (Inl (TRPCError BAD_REQUEST
            ''Invalid card number. We accept Visa, Mastercard, Amex, and Discover.''),
      account_store)"
    by (simp add: account_simps account_example_simps fl_cent Let_def)
  have routing: "fundAccount_procedure env1 account_store caller1
       (deposit 1 50 \<lparr>fs_type = bank, fs_accountNumber = ''12345678'', fs_routingNumber = None\<rparr>) =
     (Inl (TRPCError BAD_REQUEST
            ''A valid 9-digit routing number is required for bank transfers''),
      account_store)"
    by (simp add: account_simps account_example_simps fl_cent Let_def)
  from fundAccount_rejects_invalid_source [OF u bad, of env1 account_store]
  obtain err where "fundAccount_procedure env1 account_store caller1 ?input = (Inl err, account_store)"
    by blast
  with luhn have "fundAccount_procedure env1 account_store caller1 ?input =
     (Inl (TRPCError BAD_REQUEST ''Invalid card number. Please check and try again.''),
      account_store)"
    by simp
  then show ?thesis
    using network routing unknown_1234567812345670 by simp
qed

section \<open>The ownership check\<close>

lemma account_of_user_None:
  "\<not> list_ex (\<lambda>a. int (a_id a) = accountId \<and> a_userId a = userId) (accounts d) \<Longrightarrow>
   account_of_user d accountId userId = None"
  by (simp add: account_of_user_def find_None_iff list_ex_iff)

lemma fundAccount_error_codes:
  "fst (fundAccount e d user input) = Inl err \<Longrightarrow> error_code err \<in> {BAD_REQUEST, NOT_FOUND}"
  by (auto simp: fundAccount_def Let_def split: if_splits option.splits)

lemma fundAccount_procedure_error_codes:
  assumes "fst (fundAccount_procedure e d ctx input) = Inl err"
  shows "error_code err \<in> {BAD_REQUEST, NOT_FOUND, UNAUTHORIZED}"
proof (cases "ctx_user ctx")
  case None
  then show ?thesis
    using assms by (auto simp: fundAccount_procedure_def protectedProcedure_def)
next
  case (Some user)
  show ?thesis
  proof (cases "fundAccount_input_issues input")
    case Nil
    then show ?thesis
      using assms fundAccount_error_codes [of e d user input err]
      by (auto simp: fundAccount_procedure_user [OF Some])
  next
    case (Cons issue issues)
    then show ?thesis
      using assms by (auto simp: fundAccount_procedure_user [OF Some])
  qed
qed

lemma getTransactions_procedure_error_codes:
  assumes "fst (getTransactions_procedure d ctx accountId) = Inl err"
  shows "error_code err \<in> {NOT_FOUND, UNAUTHORIZED}"
  using assms
  by (auto simp: getTransactions_procedure_def protectedProcedure_def getTransactions_def
      split: option.splits)

text \<open>
  C7, as stated: every fundAccount call on an account that does not exist or is not the
  caller's fails with Not Found. It does not when the funding source is invalid: the
  source is validated before the account is looked up. Account \<open>99\<close> does not exist, the
  card fails the Luhn check, and the call fails with Bad Request.
\<close>

theorem fundAccount_missing_account_bad_request:
  "account_of_user account_store 99 (u_id user1) = None \<and>
   \<not> list_ex (\<lambda>a. int (a_id a) = 99) (accounts account_store) \<and>
   fundAccount_procedure env1 account_store caller1
       (deposit 99 50 (card_source ''4111111111111112'')) =
     (Inl (TRPCError BAD_REQUEST ''Invalid card number. Please check and try again.''),
      account_store) \<and>
   error_code (TRPCError BAD_REQUEST ''Invalid card number. Please check and try again.'') \<noteq>
     NOT_FOUND"
  by (simp add: account_simps account_example_simps fl_cent visa_4111111111111112 Let_def)

text \<open>
  C7, amended. The caller is authenticated and no account with the given id belongs to
  the caller (there is none with that id, or it is another user's). Then getTransactions
  fails with Not Found, and so does a fundAccount call whose input passes the schema and
  the validation of the funding source; the message is the same in both cases of the
  hypothesis and the store is untouched. No call of either procedure fails with Forbidden.
\<close>

theorem account_lookup_not_found:
  assumes "ctx_user ctx = Some user"
    and "\<not> list_ex (\<lambda>a. int (a_id a) = accountId \<and> a_userId a = u_id user) (accounts d)"
  shows "getTransactions_procedure d ctx accountId =
           (Inl (TRPCError NOT_FOUND ''Account not found''), d) \<and>
         (fi_accountId input = accountId \<and> fundAccount_input_issues input = [] \<and>
          \<not> ((fs_type (fi_fundingSource input) = bank \<and>
               (case fs_routingNumber (fi_fundingSource input) of
                  None \<Rightarrow> True
                | Some routingNumber \<Rightarrow>
                    \<not> (length routingNumber = 9 \<and> list_all is_decimal_digit routingNumber))) \<or>
              (fs_type (fi_fundingSource input) = card \<and>
               (detectCardType (fs_accountNumber (fi_fundingSource input)) = None \<or>
                \<not> isValidLuhn (fs_accountNumber (fi_fundingSource input))))) \<longrightarrow>
          fundAccount_procedure e d ctx input =
            (Inl (TRPCError NOT_FOUND ''Account not found''), d)) \<and>
         (\<forall>err. fst (fundAccount_procedure e d ctx input) = Inl err \<longrightarrow>
                error_code err \<noteq> FORBIDDEN) \<and>
         (\<forall>err. fst (getTransactions_procedure d ctx accountId) = Inl err \<longrightarrow>
                error_code err \<noteq> FORBIDDEN)"
proof -
  have none: "account_of_user d accountId (u_id user) = None"
    using assms(2) by (rule account_of_user_None)
  have get: "getTransactions_procedure d ctx accountId =
           (Inl (TRPCError NOT_FOUND ''Account not found''), d)"
    by (simp add: getTransactions_procedure_def protectedProcedure_def getTransactions_def
        assms(1) none)
  have fund: "fundAccount_procedure e d ctx input =
            (Inl (TRPCError NOT_FOUND ''Account not found''), d)"
    if "fi_accountId input = accountId" "fundAccount_input_issues input = []"
      "\<not> ((fs_type (fi_fundingSource input) = bank \<and>
               (case fs_routingNumber (fi_fundingSource input) of
                  None \<Rightarrow> True
                | Some routingNumber \<Rightarrow>
                    \<not> (length routingNumber = 9 \<and> list_all is_decimal_digit routingNumber))) \<or>
              (fs_type (fi_fundingSource input) = card \<and>
               (detectCardType (fs_accountNumber (fi_fundingSource input)) = None \<or>
                \<not> isValidLuhn (fs_accountNumber (fi_fundingSource input)))))"
    using that none
    by (auto simp: fundAccount_procedure_user [OF assms(1)] fundAccount_def Let_def truthy_def
        split: option.splits)
  have nf1: "error_code err \<noteq> FORBIDDEN"
    if "fst (fundAccount_procedure e d ctx input) = Inl err" for err
    using fundAccount_procedure_error_codes [OF that] by auto
  have nf2: "error_code err \<noteq> FORBIDDEN"
    if "fst (getTransactions_procedure d ctx accountId) = Inl err" for err
    using getTransactions_procedure_error_codes [OF that] by auto
  show ?thesis
    using get fund nf1 nf2 by blast
qed

text \<open>
  Account \<open>1\<close> belongs to user \<open>1\<close> and account \<open>99\<close> to nobody. User \<open>2\<close> gets the same
  answer for both, from both procedures.
\<close>

theorem account_lookup_not_found_witness:
  "getTransactions_procedure account_store caller2 1 =
     (Inl (TRPCError NOT_FOUND ''Account not found''), account_store) \<and>
   getTransactions_procedure account_store caller2 99 =
     (Inl (TRPCError NOT_FOUND ''Account not found''), account_store) \<and>
   fundAccount_procedure env1 account_store caller2 (deposit 1 50 (card_source ''4111111111111111'')) =
     (Inl (TRPCError NOT_FOUND ''Account not found''), account_store) \<and>
   fundAccount_procedure env1 account_store caller2 (deposit 99 50 (card_source ''4111111111111111'')) =
     (Inl (TRPCError NOT_FOUND ''Account not found''), account_store)"
proof -
  have u: "ctx_user caller2 = Some user2"
    by (simp add: caller2_def)
  have foreign: "\<not> list_ex (\<lambda>a. int (a_id a) = 1 \<and> a_userId a = u_id user2) (accounts account_store)"
    by (simp add: account_store_def empty_db_def user2_def user1_def)
  have absent: "\<not> list_ex (\<lambda>a. int (a_id a) = 99 \<and> a_userId a = u_id user2) (accounts account_store)"
    by (simp add: account_store_def empty_db_def user2_def user1_def)
  have ok: "fi_accountId (deposit n 50 (card_source ''4111111111111111'')) = n \<and>
      fundAccount_input_issues (deposit n 50 (card_source ''4111111111111111'')) = [] \<and>
      \<not> ((fs_type (fi_fundingSource (deposit n 50 (card_source ''4111111111111111''))) = bank \<and>
           (case fs_routingNumber (fi_fundingSource (deposit n 50 (card_source ''4111111111111111''))) of
              None \<Rightarrow> True
            | Some routingNumber \<Rightarrow>
                \<not> (length routingNumber = 9 \<and> list_all is_decimal_digit routingNumber))) \<or>
          (fs_type (fi_fundingSource (deposit n 50 (card_source ''4111111111111111''))) = card \<and>
           (detectCardType (fs_accountNumber (fi_fundingSource (deposit n 50 (card_source ''4111111111111111'')))) = None \<or>
            \<not> isValidLuhn (fs_accountNumber (fi_fundingSource (deposit n 50 (card_source ''4111111111111111'')))))))"
    for n
    by (simp add: deposit_def card_source_def fundAccount_input_issues_def fl_cent
        detectCardType_def is_decimal_digit_def visa_4111111111111111)
  show ?thesis
    using account_lookup_not_found [OF u foreign, of "deposit 1 50 (card_source ''4111111111111111'')" env1]
      account_lookup_not_found [OF u absent, of "deposit 99 50 (card_source ''4111111111111111'')" env1]
      ok [of 1] ok [of 99]
    by blast
qed

section \<open>The transaction fundAccount returns\<close>

text \<open>A row whose key is below the key of every other row is the first of the sorted rows.\<close>

lemma sort_key_least_first:
  assumes "x \<in> set xs" and "\<forall>y \<in> set xs. y \<noteq> x \<longrightarrow> f x < f y"
  shows "\<exists>ys. sort_key f xs = x # ys"
proof (cases "sort_key f xs")
  case Nil
  then have "set (sort_key f xs) = {}" by simp
  then show ?thesis using assms(1) by simp
next
  case (Cons h ys)
  have members: "set (h # ys) = set xs"
    using Cons set_sort [of f xs] by simp
  have sorted: "\<forall>y \<in> set ys. f h \<le> f y"
    using sorted_sort_key [of f xs] Cons by simp
  have "h = x"
  proof (rule ccontr)
    assume neq: "h \<noteq> x"
    then have "x \<in> set ys" using members assms(1) by auto
    then have "f h \<le> f x" using sorted by blast
    moreover have "f x < f h" using assms(2) members neq by auto
    ultimately show False by simp
  qed
  then show ?thesis using Cons by simp
qed

lemma newest_after_insert:
  assumes "transactions_ok d"
  shows "newest_transaction
           (insert_transaction d accountId ty amount description status created processed)
           accountId =
         Some \<lparr>t_id = Suc (transactions_seq d), t_accountId = accountId, t_type = ty,
               t_amount = amount, t_description = description, t_status = status,
               t_createdAt = created, t_processedAt = processed\<rparr>"
proof -
  let ?new = "\<lparr>t_id = Suc (transactions_seq d), t_accountId = accountId, t_type = ty,
               t_amount = amount, t_description = description, t_status = status,
               t_createdAt = created, t_processedAt = processed\<rparr>"
  let ?rows = "filter (\<lambda>t. t_accountId t = accountId) (transactions d) @ [?new]"
  have old: "t_id y \<le> transactions_seq d" if "y \<in> set (transactions d)" for y
    using assms that by (simp add: transactions_ok_def list_all_iff)
  have "\<forall>y \<in> set ?rows. y \<noteq> ?new \<longrightarrow> - int (t_id ?new) < - int (t_id y)"
    using old by fastforce
  then obtain ys where "sort_key (\<lambda>t. - int (t_id t)) ?rows = ?new # ys"
    using sort_key_least_first [of ?new ?rows "\<lambda>t. - int (t_id t)"] by auto
  then show ?thesis
    by (simp add: newest_transaction_def insert_transaction_def)
qed

text \<open>A successful call, step by step.\<close>

lemma fundAccount_success:
  assumes ok: "transactions_ok d"
    and call: "fundAccount_procedure e d ctx input = (Inr r, d')"
  shows "\<exists>t. fr_transaction r = Some t \<and>
             t_id t = Suc (transactions_seq d) \<and>
             t_accountId t = fi_accountId input \<and>
             t_amount t = fdiv (Math_round (fmul (fi_amount input) 100)) 100 \<and>
             transactions d' = transactions d @ [t] \<and>
             transactions_seq d' = Suc (transactions_seq d)"
proof -
  from call obtain user where u: "ctx_user ctx = Some user"
    by (auto simp: fundAccount_procedure_def protectedProcedure_def split: option.splits)
  from call have body: "fundAccount e d user input = (Inr r, d')"
    by (auto simp: fundAccount_procedure_user [OF u] split: list.splits)
  let ?amount = "fdiv (Math_round (fmul (fi_amount input) 100)) 100"
  let ?d1 = "insert_transaction d (fi_accountId input) ''deposit'' ?amount
               (''Funding from '' @ funding_type_name (fs_type (fi_fundingSource input)))
               ''completed'' (env_now e div 1000) (Some (env_now e))"
  from body obtain newBalance where
    r: "r = \<lparr>fr_transaction = newest_transaction ?d1 (fi_accountId input),
               fr_newBalance = newBalance\<rparr>"
    and d': "d' = update_balance ?d1 (fi_accountId input) newBalance"
    by (auto simp: fundAccount_def Let_def split: if_splits option.splits)
  have t: "fr_transaction r =
      Some \<lparr>t_id = Suc (transactions_seq d), t_accountId = fi_accountId input,
            t_type = ''deposit'', t_amount = ?amount,
            t_description = ''Funding from '' @ funding_type_name (fs_type (fi_fundingSource input)),
            t_status = ''completed'', t_createdAt = env_now e div 1000,
            t_processedAt = Some (env_now e)\<rparr>"
    unfolding r by (simp add: newest_after_insert [OF ok])
  have rows: "transactions d' = transactions d @
      [\<lparr>t_id = Suc (transactions_seq d), t_accountId = fi_accountId input,
            t_type = ''deposit'', t_amount = ?amount,
            t_description = ''Funding from '' @ funding_type_name (fs_type (fi_fundingSource input)),
            t_status = ''completed'', t_createdAt = env_now e div 1000,
            t_processedAt = Some (env_now e)\<rparr>]"
    and seq: "transactions_seq d' = Suc (transactions_seq d)"
    unfolding d' by (simp_all add: update_balance_def insert_transaction_def)
  show ?thesis
    using t rows seq by simp
qed

lemma fundAccount_keeps_transactions_ok:
  assumes "transactions_ok d"
  shows "transactions_ok (snd (fundAccount_procedure e d ctx input))"
proof (cases "fst (fundAccount_procedure e d ctx input)")
  case (Inl err)
  have "snd (fundAccount_procedure e d ctx input) = d"
    using Inl
    by (auto simp: fundAccount_procedure_def protectedProcedure_def fundAccount_def Let_def
        split: option.splits list.splits if_splits)
  then show ?thesis using assms by simp
next
  case (Inr r)
  then have "fundAccount_procedure e d ctx input = (Inr r, snd (fundAccount_procedure e d ctx input))"
    by (simp add: prod_eq_iff)
  from fundAccount_success [OF assms this] obtain t where
    t: "t_id t = Suc (transactions_seq d)"
      "transactions (snd (fundAccount_procedure e d ctx input)) = transactions d @ [t]"
      "transactions_seq (snd (fundAccount_procedure e d ctx input)) = Suc (transactions_seq d)"
    by blast
  have "t_id y \<le> Suc (transactions_seq d)" if "y \<in> set (transactions d @ [t])" for y
  proof (cases "y = t")
    case True
    then show ?thesis using t(1) by simp
  next
    case False
    then have "y \<in> set (transactions d)" using that by simp
    then have "t_id y \<le> transactions_seq d"
      using assms by (simp add: transactions_ok_def list_all_iff)
    then show ?thesis by simp
  qed
  then show ?thesis
    unfolding transactions_ok_def list_all_iff t(2,3) by blast
qed

text \<open>
  C8. The identifiers of the transaction table came from its sequence, and two calls of
  fundAccount succeed one after the other. Then each returns a transaction; the second
  call returns the row it has just inserted, which was not in the table before the call,
  has the amount of the second call rounded to cents, and an id other than that of the
  transaction the first call returned.
\<close>

theorem fundAccount_returns_new_transaction:
  assumes "transactions_ok d"
    and "fundAccount_procedure e1 d ctx1 input1 = (Inr r1, d1)"
    and "fundAccount_procedure e2 d1 ctx2 input2 = (Inr r2, d2)"
  shows "\<exists>t1 t2. fr_transaction r1 = Some t1 \<and> fr_transaction r2 = Some t2 \<and>
           t_amount t1 = fdiv (Math_round (fmul (fi_amount input1) 100)) 100 \<and>
           t_amount t2 = fdiv (Math_round (fmul (fi_amount input2) 100)) 100 \<and>
           t_accountId t2 = fi_accountId input2 \<and>
           t_id t2 \<noteq> t_id t1 \<and>
           t2 \<notin> set (transactions d1) \<and>
           transactions d2 = transactions d1 @ [t2]"
proof -
  from fundAccount_success [OF assms(1,2)] obtain t1 where
    t1: "fr_transaction r1 = Some t1" "t_id t1 = Suc (transactions_seq d)"
      "t_amount t1 = fdiv (Math_round (fmul (fi_amount input1) 100)) 100"
      "transactions_seq d1 = Suc (transactions_seq d)"
    by blast
  have ok1: "transactions_ok d1"
    using fundAccount_keeps_transactions_ok [OF assms(1), of e1 ctx1 input1] assms(2) by simp
  from fundAccount_success [OF ok1 assms(3)] obtain t2 where
    t2: "fr_transaction r2 = Some t2" "t_id t2 = Suc (transactions_seq d1)"
      "t_accountId t2 = fi_accountId input2"
      "t_amount t2 = fdiv (Math_round (fmul (fi_amount input2) 100)) 100"
      "transactions d2 = transactions d1 @ [t2]"
    by blast
  have fresh: "t2 \<notin> set (transactions d1)"
  proof
    assume "t2 \<in> set (transactions d1)"
    then have "t_id t2 \<le> transactions_seq d1"
      using ok1 by (simp add: transactions_ok_def list_all_iff)
    then show False using t2(2) by simp
  qed
  have "t_id t2 \<noteq> t_id t1"
    using t1(2,4) t2(2) by simp
  then show ?thesis
    using t1 t2 fresh by blast
qed

lemmas fund_eval_simps =
  account_simps account_example_simps fl_cent visa_4111111111111111 Let_def
  number_simps env1_def env2_def insert_transaction_def newest_transaction_def
  update_balance_def funding_type_name_def transaction_50_def transaction_20_def
  store_after_50_def

text \<open>
  The two deposits of the integration test: the second call returns the transaction of
  20 with id \<open>2\<close>, not the transaction of 50 with id \<open>1\<close>.
\<close>

theorem fundAccount_returns_new_transaction_witness:
  "transactions_ok account_store \<and>
   fundAccount_procedure env1 account_store caller1
       (deposit 1 50 (card_source ''4111111111111111'')) =
     (Inr \<lparr>fr_transaction = Some transaction_50, fr_newBalance = 50\<rparr>, store_after_50) \<and>
   fst (fundAccount_procedure env2 store_after_50 caller1
       (deposit 1 20 (card_source ''4111111111111111''))) =
     Inr \<lparr>fr_transaction = Some transaction_20, fr_newBalance = 70\<rparr> \<and>
   t_id transaction_20 \<noteq> t_id transaction_50"
proof -
  have ok: "transactions_ok account_store"
    by (simp add: transactions_ok_def account_store_def empty_db_def)
  have first: "fundAccount_procedure env1 account_store caller1
       (deposit 1 50 (card_source ''4111111111111111'')) =
     (Inr \<lparr>fr_transaction = Some transaction_50, fr_newBalance = 50\<rparr>, store_after_50)"
    by (simp add: fund_eval_simps)
  have second_result: "fst (fundAccount_procedure env2 store_after_50 caller1
       (deposit 1 20 (card_source ''4111111111111111''))) =
     Inr \<lparr>fr_transaction = Some transaction_20, fr_newBalance = 70\<rparr>"
    by (simp add: fund_eval_simps)
  then have second: "fundAccount_procedure env2 store_after_50 caller1
       (deposit 1 20 (card_source ''4111111111111111'')) =
     (Inr \<lparr>fr_transaction = Some transaction_20, fr_newBalance = 70\<rparr>,
      snd (fundAccount_procedure env2 store_after_50 caller1
             (deposit 1 20 (card_source ''4111111111111111''))))"
    by (simp add: prod_eq_iff)
  from fundAccount_returns_new_transaction [OF ok first second]
  have "t_id transaction_20 \<noteq> t_id transaction_50"
    by auto
  then show ?thesis
    using ok first second_result by simp
qed

section \<open>Rounding to binary64\<close>

text \<open>
  The error of one rounding is at most half a unit in the last place, so at most
  \<open>2 ^ -53\<close> of the magnitude; from this alone follows that adding two amounts of whole
  cents, held as JavaScript numbers, and rounding the sum to cents gives the exact number
  of cents, as long as it stays below \<open>2 ^ 50\<close>.
\<close>

lemma pow2_powi: "pow2 e = 2 powi e"
  by (simp add: pow2_def power_int_def power_one_over [symmetric] inverse_eq_divide)

lemma pow2_pos: "0 < pow2 e"
  by (simp add: pow2_powi)

lemma pow2_shift: "pow2 (e - 52) = pow2 e / 2 ^ 52"
  by (simp add: pow2_powi power_int_diff)

lemma ilog2_le:
  assumes "0 < x"
  shows "pow2 (ilog2 x) \<le> x"
proof (cases "1 \<le> x")
  case True
  then have pos: "0 < \<lfloor>x\<rfloor>" by simp
  from bitlen_bounds [OF pos] have "2 ^ nat (bitlen \<lfloor>x\<rfloor> - 1) \<le> \<lfloor>x\<rfloor>" by simp
  then have "(2 :: real) ^ nat (bitlen \<lfloor>x\<rfloor> - 1) \<le> of_int \<lfloor>x\<rfloor>"
    by (metis of_int_le_iff of_int_numeral of_int_power)
  also have "\<dots> \<le> x" by simp
  finally have le: "(2 :: real) ^ nat (bitlen \<lfloor>x\<rfloor> - 1) \<le> x" .
  have "1 \<le> bitlen \<lfloor>x\<rfloor>"
    using pos by (simp add: bitlen_alt_def)
  then show ?thesis
    using True le by (simp add: ilog2_def pow2_def)
next
  case False
  then have lt: "x < 1" by simp
  then have "1 < 1 / x" using assms by simp
  then have c2: "2 \<le> \<lceil>1 / x\<rceil>" by linarith
  define m where "m = \<lceil>1 / x\<rceil> - 1"
  have mpos: "0 < m" using c2 by (simp add: m_def)
  from bitlen_bounds [OF mpos] have "m < 2 ^ nat (bitlen m)" by simp
  then have "m + 1 \<le> 2 ^ nat (bitlen m)" by simp
  then have "(of_int (m + 1) :: real) \<le> 2 ^ nat (bitlen m)"
    by (metis of_int_le_iff of_int_numeral of_int_power)
  moreover have "1 / x \<le> of_int (m + 1)"
    by (simp add: m_def)
  ultimately have "1 / x \<le> 2 ^ nat (bitlen m)" by linarith
  then have "1 / 2 ^ nat (bitlen m) \<le> x"
    using assms by (simp add: field_simps)
  moreover have "0 \<le> bitlen m" by (rule bitlen_nonneg)
  moreover have "1 \<le> bitlen m" using mpos by (simp add: bitlen_alt_def)
  ultimately show ?thesis
    using False by (simp add: ilog2_def pow2_def m_def)
qed

text \<open>So \<open>ilog2\<close> is the binary exponent: \<open>2 ^ ilog2 x \<le> x < 2 ^ (ilog2 x + 1)\<close>.\<close>

lemma ilog2_upper:
  assumes "0 < x"
  shows "x < pow2 (ilog2 x + 1)"
proof (cases "1 \<le> x")
  case True
  then have pos: "0 < \<lfloor>x\<rfloor>" by simp
  from bitlen_bounds [OF pos] have "\<lfloor>x\<rfloor> < 2 ^ nat (bitlen \<lfloor>x\<rfloor>)" by simp
  then have "\<lfloor>x\<rfloor> + 1 \<le> 2 ^ nat (bitlen \<lfloor>x\<rfloor>)" by simp
  then have "(of_int (\<lfloor>x\<rfloor> + 1) :: real) \<le> 2 ^ nat (bitlen \<lfloor>x\<rfloor>)"
    by (metis of_int_le_iff of_int_numeral of_int_power)
  moreover have "x < of_int (\<lfloor>x\<rfloor> + 1)" by linarith
  ultimately have "x < 2 ^ nat (bitlen \<lfloor>x\<rfloor>)" by linarith
  moreover have "0 \<le> bitlen \<lfloor>x\<rfloor>" by (rule bitlen_nonneg)
  ultimately show ?thesis
    using True by (simp add: ilog2_def pow2_def)
next
  case False
  then have lt: "x < 1" by simp
  then have "1 < 1 / x" using assms by simp
  then have c2: "2 \<le> \<lceil>1 / x\<rceil>" by linarith
  define m where "m = \<lceil>1 / x\<rceil> - 1"
  have mpos: "0 < m" using c2 by (simp add: m_def)
  have b1: "1 \<le> bitlen m" using mpos by (simp add: bitlen_alt_def)
  from bitlen_bounds [OF mpos] have "2 ^ nat (bitlen m - 1) \<le> m" by simp
  then have "(2 :: real) ^ nat (bitlen m - 1) \<le> of_int m"
    by (metis of_int_le_iff of_int_numeral of_int_power)
  moreover have "of_int m < 1 / x"
    unfolding m_def by linarith
  ultimately have "2 ^ nat (bitlen m - 1) < 1 / x" by linarith
  then have "x * 2 ^ nat (bitlen m - 1) < 1"
    using assms by (simp add: field_simps)
  then have "x < 1 / 2 ^ nat (bitlen m - 1)"
    by (simp add: field_simps)
  moreover have "pow2 (- bitlen m + 1) = 1 / 2 ^ nat (bitlen m - 1)"
  proof (cases "bitlen m = 1")
    case True
    then show ?thesis by (simp add: pow2_def)
  next
    case False
    then have "- bitlen m + 1 < 0" using b1 by simp
    then show ?thesis by (simp add: pow2_def)
  qed
  ultimately show ?thesis
    using False by (simp add: ilog2_def m_def)
qed

lemma round_half_even_error: "\<bar>of_int (round_half_even q) - q\<bar> \<le> 1 / 2"
  unfolding round_half_even_def Let_def
  by (auto simp: abs_le_iff)

lemma fl_error: "\<bar>fl x - x\<bar> \<le> \<bar>x\<bar> / 2 ^ 53"
proof (cases "x = 0")
  case True
  then show ?thesis by (simp add: fl_def)
next
  case False
  define ulp where "ulp = pow2 (ilog2 \<bar>x\<bar> - 52)"
  have ulp_pos: "0 < ulp" by (simp add: ulp_def pow2_pos)
  have ulp_le: "ulp \<le> \<bar>x\<bar> / 2 ^ 52"
    using ilog2_le [of "\<bar>x\<bar>"] False
    by (simp add: ulp_def pow2_shift divide_right_mono)
  have "fl x - x = (of_int (round_half_even (x / ulp)) - x / ulp) * ulp"
    using False ulp_pos by (simp add: fl_def ulp_def Let_def field_simps)
  then have "\<bar>fl x - x\<bar> = \<bar>of_int (round_half_even (x / ulp)) - x / ulp\<bar> * ulp"
    using ulp_pos by (simp add: abs_mult)
  also have "\<dots> \<le> 1 / 2 * ulp"
    using round_half_even_error [of "x / ulp"] ulp_pos by (simp add: mult_right_mono)
  also have "\<dots> \<le> \<bar>x\<bar> / 2 ^ 53"
    using ulp_le by simp
  finally show ?thesis .
qed


lemma fl_nonneg:
  assumes "0 \<le> x"
  shows "0 \<le> fl x"
proof -
  have "\<bar>fl x - x\<bar> \<le> x / 2 ^ 53"
    using fl_error [of x] assms by simp
  moreover have "x / 2 ^ 53 \<le> x"
    using assms by (simp add: field_simps)
  ultimately show ?thesis by linarith
qed

lemma fl_near:
  assumes "\<bar>x - y\<bar> \<le> \<delta> * y" and "0 \<le> y" and "0 \<le> \<delta>"
  shows "\<bar>fl x - y\<bar> \<le> (\<delta> + (1 + \<delta>) / 2 ^ 53) * y"
proof -
  have "\<bar>x\<bar> \<le> \<bar>y\<bar> + \<bar>x - y\<bar>" by simp
  then have "\<bar>x\<bar> \<le> (1 + \<delta>) * y"
    using assms by (simp add: algebra_simps)
  then have "\<bar>x\<bar> / 2 ^ 53 \<le> (1 + \<delta>) * y / 2 ^ 53"
    by (simp add: divide_right_mono)
  then have "\<bar>fl x - x\<bar> \<le> (1 + \<delta>) / 2 ^ 53 * y"
    using fl_error [of x] by simp
  moreover have "\<bar>fl x - y\<bar> \<le> \<bar>fl x - x\<bar> + \<bar>x - y\<bar>" by simp
  ultimately have "\<bar>fl x - y\<bar> \<le> (1 + \<delta>) / 2 ^ 53 * y + \<delta> * y"
    using assms(1) by linarith
  then show ?thesis by (simp add: algebra_simps)
qed

lemma floor_half_near:
  fixes x :: real
  assumes "\<bar>x - of_int n\<bar> < 1 / 2"
  shows "\<lfloor>x + 1 / 2\<rfloor> = n"
proof (rule floor_unique)
  show "of_int n \<le> x + 1 / 2" using assms by linarith
  show "x + 1 / 2 < of_int n + 1" using assms by linarith
qed

lemma cents_sum:
  assumes "0 \<le> K" and "0 \<le> M" and "K + M < 2 ^ 50"
  shows "\<lfloor>fmul (fadd (fl (of_int K / 100)) (fl (of_int M / 100))) 100 + 1 / 2\<rfloor> = K + M"
proof -
  define N :: real where "N = of_int (K + M)"
  define b where "b = fl (of_int K / 100)"
  define r where "r = fl (of_int M / 100)"
  have N0: "0 \<le> N" using assms by (simp add: N_def)
  have Nlt: "N < 2 ^ 50"
  proof -
    have "(of_int (K + M) :: real) < of_int (2 ^ 50)"
      using assms(3) by (simp only: of_int_less_iff)
    then show ?thesis by (simp add: N_def)
  qed
  have "\<bar>b - of_int K / 100\<bar> \<le> (of_int K / 100) / 2 ^ 53"
    using fl_error [of "of_int K / 100"] assms(1) by (simp add: b_def)
  moreover have "\<bar>r - of_int M / 100\<bar> \<le> (of_int M / 100) / 2 ^ 53"
    using fl_error [of "of_int M / 100"] assms(2) by (simp add: r_def)
  moreover have "N / 100 = of_int K / 100 + of_int M / 100"
    by (simp add: N_def add_divide_distrib)
  ultimately have "\<bar>(b + r) - N / 100\<bar> \<le>
      (of_int K / 100) / 2 ^ 53 + (of_int M / 100) / 2 ^ 53"
    by linarith
  also have "\<dots> = 1 / 2 ^ 53 * (N / 100)"
    by (simp add: N_def add_divide_distrib)
  finally have s: "\<bar>(b + r) - N / 100\<bar> \<le> 1 / 2 ^ 53 * (N / 100)" .
  have s': "\<bar>fl (b + r) - N / 100\<bar> \<le> (1 / 2 ^ 53 + (1 + 1 / 2 ^ 53) / 2 ^ 53) * (N / 100)"
    using fl_near [OF s] N0 by simp
  have eq: "fl (b + r) * 100 - N = (fl (b + r) - N / 100) * 100"
    by (simp add: algebra_simps)
  have "\<bar>fl (b + r) * 100 - N\<bar> = \<bar>(fl (b + r) - N / 100) * 100\<bar>"
    by (simp only: eq)
  also have "\<dots> = \<bar>fl (b + r) - N / 100\<bar> * 100"
    by (simp only: abs_mult abs_numeral)
  also have "\<dots> \<le> (1 / 2 ^ 53 + (1 + 1 / 2 ^ 53) / 2 ^ 53) * (N / 100) * 100"
    using s' by (simp only: mult_right_mono)
  finally have t: "\<bar>fl (b + r) * 100 - N\<bar> \<le> (1 / 2 ^ 53 + (1 + 1 / 2 ^ 53) / 2 ^ 53) * N"
    by simp
  have t': "\<bar>fl (fl (b + r) * 100) - N\<bar> \<le>
      ((1 / 2 ^ 53 + (1 + 1 / 2 ^ 53) / 2 ^ 53) +
       (1 + (1 / 2 ^ 53 + (1 + 1 / 2 ^ 53) / 2 ^ 53)) / 2 ^ 53) * N"
    using fl_near [OF t N0] by simp
  have "((1 / 2 ^ 53 + (1 + 1 / 2 ^ 53) / 2 ^ 53) +
       (1 + (1 / 2 ^ 53 + (1 + 1 / 2 ^ 53) / 2 ^ 53)) / 2 ^ 53) \<le> (4 / 2 ^ 53 :: real)"
    by simp
  then have "((1 / 2 ^ 53 + (1 + 1 / 2 ^ 53) / 2 ^ 53) +
       (1 + (1 / 2 ^ 53 + (1 + 1 / 2 ^ 53) / 2 ^ 53)) / 2 ^ 53) * N \<le> 4 / 2 ^ 53 * N"
    using N0 by (rule mult_right_mono)
  also have "\<dots> < 1 / 2"
    using Nlt by simp
  finally have "\<bar>fl (fl (b + r) * 100) - N\<bar> < 1 / 2"
    using t' by linarith
  then have "\<lfloor>fl (fl (b + r) * 100) + 1 / 2\<rfloor> = K + M"
    unfolding N_def by (rule floor_half_near)
  then show ?thesis
    by (simp add: fmul_def fadd_def b_def r_def)
qed

section \<open>The balance after a sequence of deposits\<close>

lemma fl_zero: "fl 0 = 0"
  by (simp add: fl_def)

lemma cents_range:
  assumes "fl (1 / 100) \<le> a" and "a \<le> 10000"
  shows "0 \<le> cents a" and "cents a \<le> 1000000"
proof -
  have a0: "0 \<le> a" using assms(1) by (simp add: fl_cent)
  then have x0: "0 \<le> a * 100" by simp
  have x1: "a * 100 \<le> 1000000" using assms(2) by simp
  have "0 \<le> fl (a * 100)" using x0 by (rule fl_nonneg)
  then show "0 \<le> cents a" by (simp add: cents_def fmul_def)
  have "\<bar>fl (a * 100) - a * 100\<bar> \<le> a * 100 / 2 ^ 53"
    using fl_error [of "a * 100"] x0 by simp
  moreover have "a * 100 / 2 ^ 53 \<le> 1000000 / 2 ^ 53"
    using x1 by (simp only: divide_right_mono zero_le_power zero_le_numeral)
  moreover have "(1000000 :: real) / 2 ^ 53 < 1 / 2"
    by simp
  ultimately have "fl (a * 100) + 1 / 2 < 1000000 + 1"
    using x1 by linarith
  then have "\<lfloor>fl (a * 100) + 1 / 2\<rfloor> < 1000000 + 1"
    by (simp only: floor_less_iff of_int_add of_int_numeral of_int_1)
  then show "cents a \<le> 1000000" by (simp add: cents_def fmul_def)
qed

lemma round_amount: "fdiv (Math_round (fmul a 100)) 100 = fl (of_int (cents a) / 100)"
  by (simp add: fdiv_def Math_round_def cents_def)

lemma balance_step:
  assumes "0 \<le> K" and "0 \<le> cents a" and "K + cents a < 2 ^ 50"
  shows "fdiv (Math_round (fmul (fadd (fl (of_int K / 100))
                                   (fdiv (Math_round (fmul a 100)) 100)) 100)) 100 =
         fl (of_int (K + cents a) / 100)"
proof -
  have "cents (fadd (fl (of_int K / 100)) (fl (of_int (cents a) / 100))) = K + cents a"
    using cents_sum [OF assms] by (simp add: cents_def)
  then show ?thesis
    by (simp only: round_amount)
qed

lemma find_map_same:
  assumes "find P xs = Some x" and "\<And>y. P (f y) = P y"
  shows "find P (map f xs) = Some (f x)"
  using assms(1) by (induction xs) (auto simp: assms(2))

lemma source_accepted_passes:
  assumes "source_accepted source"
  shows "fs_accountNumber source \<noteq> []"
    and "\<not> (fs_type source = bank \<and>
            (\<not> truthy (fs_routingNumber source) \<or>
             \<not> (case fs_routingNumber source of
                   None \<Rightarrow> False
                 | Some routingNumber \<Rightarrow>
                     length routingNumber = 9 \<and> list_all is_decimal_digit routingNumber)))"
    and "\<not> (fs_type source = card \<and> detectCardType (fs_accountNumber source) = None)"
    and "\<not> (fs_type source = card \<and> \<not> isValidLuhn (fs_accountNumber source))"
  using assms
  by (auto simp: source_accepted_def truthy_def split: funding_type.splits option.splits)

lemma fundAccount_balance:
  assumes u: "ctx_user ctx = Some user"
    and acc: "account_of_user d accountId (u_id user) = Some account"
    and active: "a_status account = ''active''"
    and bal: "a_balance account = fl (of_int K / 100)" and K: "0 \<le> K"
    and src: "source_accepted source"
    and range: "fl (1 / 100) \<le> a" "a \<le> 10000"
    and small: "K + cents a < 2 ^ 50"
  shows "account_of_user
           (snd (fundAccount_procedure e d ctx
                   \<lparr>fi_accountId = accountId, fi_amount = a, fi_fundingSource = source\<rparr>))
           accountId (u_id user) =
         Some (account\<lparr>a_balance := fl (of_int (K + cents a) / 100)\<rparr>)"
proof -
  let ?input = "\<lparr>fi_accountId = accountId, fi_amount = a, fi_fundingSource = source\<rparr>"
  define nb where "nb = fl (of_int (K + cents a) / 100)"
  have issues: "fundAccount_input_issues ?input = []"
    using range source_accepted_passes(1) [OF src]
    by (simp add: fundAccount_input_issues_def)
  have nb: "fdiv (Math_round (fmul (fadd (a_balance account)
                (fdiv (Math_round (fmul a 100)) 100)) 100)) 100 = nb"
    unfolding bal nb_def using K cents_range(1) [OF range] small by (rule balance_step)
  have "\<exists>d1. snd (fundAccount e d user ?input) = update_balance d1 accountId nb \<and>
             accounts d1 = accounts d"
    using source_accepted_passes(2,3,4) [OF src] acc active nb
    by (auto simp: fundAccount_def Let_def insert_transaction_def)
  then obtain d1 where
    out: "snd (fundAccount_procedure e d ctx ?input) = update_balance d1 accountId nb"
    and same: "accounts d1 = accounts d"
    using issues by (auto simp: fundAccount_procedure_user [OF u])
  have found: "find (\<lambda>a. int (a_id a) = accountId \<and> a_userId a = u_id user) (accounts d) =
      Some account"
    using acc by (simp add: account_of_user_def)
  then have id: "int (a_id account) = accountId"
    by (auto simp: find_Some_iff)
  have "find (\<lambda>a. int (a_id a) = accountId \<and> a_userId a = u_id user)
          (map (\<lambda>a. if int (a_id a) = accountId then a\<lparr>a_balance := nb\<rparr> else a) (accounts d)) =
        Some (if int (a_id account) = accountId then account\<lparr>a_balance := nb\<rparr> else account)"
    using found by (rule find_map_same) simp
  then have "account_of_user (snd (fundAccount_procedure e d ctx ?input)) accountId (u_id user) =
      Some (account\<lparr>a_balance := nb\<rparr>)"
    by (simp add: out same update_balance_def account_of_user_def id)
  then show ?thesis
    by (simp only: nb_def)
qed


lemma sum_cents_nonneg:
  assumes "\<forall>a \<in> set amounts. fl (1 / 100) \<le> a \<and> a \<le> 10000"
  shows "0 \<le> sum_list (map cents amounts)"
  using assms by (induction amounts) (auto simp: cents_range(1))

lemma sum_cents_bound:
  assumes "\<forall>a \<in> set amounts. fl (1 / 100) \<le> a \<and> a \<le> 10000"
  shows "sum_list (map cents amounts) \<le> 1000000 * int (length amounts)"
  using assms
proof (induction amounts)
  case Nil
  then show ?case by simp
next
  case (Cons a amounts)
  have "cents a \<le> 1000000"
    using Cons.prems by (simp add: cents_range(2))
  moreover have "sum_list (map cents amounts) \<le> 1000000 * int (length amounts)"
    using Cons by simp
  ultimately show ?case by simp
qed

lemma fund_all_balance_from:
  assumes u: "ctx_user ctx = Some user" and src: "source_accepted source"
  shows "account_of_user d accountId (u_id user) = Some account \<Longrightarrow>
         a_status account = ''active'' \<Longrightarrow>
         a_balance account = fl (of_int K / 100) \<Longrightarrow> 0 \<le> K \<Longrightarrow>
         \<forall>a \<in> set amounts. fl (1 / 100) \<le> a \<and> a \<le> 10000 \<Longrightarrow>
         K + sum_list (map cents amounts) < 2 ^ 50 \<Longrightarrow>
         account_of_user (fund_all e d ctx accountId source amounts) accountId (u_id user) =
           Some (account\<lparr>a_balance := fl (of_int (K + sum_list (map cents amounts)) / 100)\<rparr>)"
proof (induction amounts arbitrary: d account K)
  case Nil
  then show ?case by simp
next
  case (Cons a amounts)
  let ?d' = "snd (fundAccount_procedure e d ctx
                   \<lparr>fi_accountId = accountId, fi_amount = a, fi_fundingSource = source\<rparr>)"
  let ?account' = "account\<lparr>a_balance := fl (of_int (K + cents a) / 100)\<rparr>"
  have range: "fl (1 / 100) \<le> a" "a \<le> 10000"
    and rest: "\<forall>a \<in> set amounts. fl (1 / 100) \<le> a \<and> a \<le> 10000"
    using Cons.prems(5) by simp_all
  have c0: "0 \<le> cents a"
    using range by (rule cents_range(1))
  have r0: "0 \<le> sum_list (map cents amounts)"
    using rest by (rule sum_cents_nonneg)
  have small: "K + cents a < 2 ^ 50"
    using Cons.prems(6) r0 by simp
  have step: "account_of_user ?d' accountId (u_id user) = Some ?account'"
    using u Cons.prems(1,2,3,4) src range small by (rule fundAccount_balance)
  have "account_of_user (fund_all e ?d' ctx accountId source amounts) accountId (u_id user) =
      Some (?account'\<lparr>a_balance :=
              fl (of_int ((K + cents a) + sum_list (map cents amounts)) / 100)\<rparr>)"
  proof (rule Cons.IH [OF step])
    show "a_status ?account' = ''active''" using Cons.prems(2) by simp
    show "a_balance ?account' = fl (of_int (K + cents a) / 100)" by simp
    show "0 \<le> K + cents a" using Cons.prems(4) c0 by simp
    show "\<forall>a \<in> set amounts. fl (1 / 100) \<le> a \<and> a \<le> 10000" by (rule rest)
    show "K + cents a + sum_list (map cents amounts) < 2 ^ 50"
      using Cons.prems(6) by (simp add: add.assoc)
  qed
  then show ?case
    by (simp add: add.assoc)
qed

text \<open>Amounts of whole cents: rounding to cents leaves each as it is.\<close>

lemma whole_cents_sum:
  assumes range: "\<forall>a \<in> set amounts. fl (1 / 100) \<le> a \<and> a \<le> 10000"
    and whole: "\<forall>a \<in> set amounts. fdiv (Math_round (fmul a 100)) 100 = a"
    and small: "sum_list (map cents amounts) < 2 ^ 50"
  shows "\<lfloor>sum_list amounts * 100 + 1 / 2\<rfloor> = sum_list (map cents amounts)"
proof -
  define C where "C = sum_list (map cents amounts)"
  have near: "\<bar>sum_list amounts - of_int (sum_list (map cents amounts)) / 100\<bar> \<le>
      of_int (sum_list (map cents amounts)) / 100 / 2 ^ 53"
    using range whole
  proof (induction amounts)
    case Nil
    then show ?case by simp
  next
    case (Cons a amounts)
    have a: "a = fl (of_int (cents a) / 100)"
      using Cons.prems(2) by (simp add: round_amount)
    have c0: "0 \<le> cents a"
      using Cons.prems(1) by (simp add: cents_range(1))
    have "\<bar>fl (of_int (cents a) / 100) - of_int (cents a) / 100\<bar> \<le>
        \<bar>of_int (cents a) / 100\<bar> / 2 ^ 53"
      by (rule fl_error)
    then have one: "\<bar>a - of_int (cents a) / 100\<bar> \<le> of_int (cents a) / 100 / 2 ^ 53"
      using a c0 by simp
    have rest: "\<bar>sum_list amounts - of_int (sum_list (map cents amounts)) / 100\<bar> \<le>
        of_int (sum_list (map cents amounts)) / 100 / 2 ^ 53"
      using Cons by simp
    have "\<bar>(a + sum_list amounts) -
          (of_int (cents a) / 100 + of_int (sum_list (map cents amounts)) / 100)\<bar> \<le>
        of_int (cents a) / 100 / 2 ^ 53 + of_int (sum_list (map cents amounts)) / 100 / 2 ^ 53"
      using one rest by linarith
    then show ?case
      by (simp add: add_divide_distrib)
  qed
  have C0: "0 \<le> C"
    unfolding C_def using range by (rule sum_cents_nonneg)
  have "(of_int C :: real) < of_int (2 ^ 50)"
    using small unfolding C_def by (simp only: of_int_less_iff)
  then have Clt: "(of_int C :: real) < 2 ^ 50" by simp
  have eq: "sum_list amounts * 100 - of_int C = (sum_list amounts - of_int C / 100) * 100"
    by (simp add: algebra_simps)
  have "\<bar>sum_list amounts * 100 - of_int C\<bar> = \<bar>(sum_list amounts - of_int C / 100) * 100\<bar>"
    by (simp only: eq)
  also have "\<dots> = \<bar>sum_list amounts - of_int C / 100\<bar> * 100"
    by (simp only: abs_mult abs_numeral)
  also have "\<dots> \<le> of_int C / 100 / 2 ^ 53 * 100"
    using near unfolding C_def by (simp only: mult_right_mono)
  also have "\<dots> = of_int C / 2 ^ 53"
    by simp
  also have "\<dots> < 1 / 2"
    using Clt by simp
  finally have "\<bar>sum_list amounts * 100 - of_int C\<bar> < 1 / 2" .
  then show ?thesis
    unfolding C_def by (rule floor_half_near)
qed

text \<open>
  C1, as stated: the final balance is \<^verbatim>\<open>round(sum(ai)*100)/100\<close> for every sequence of
  amounts between 0.01 and 10000. It is not for amounts with a fraction of a cent: each
  call rounds its own amount first. Two deposits of 1.004 leave a balance of exactly 2,
  and \<^verbatim>\<open>round(2.008*100)/100\<close> is 2.01, whichever way the sum is taken.
\<close>

theorem fund_all_sub_cent_amounts:
  "fl (1 / 100) \<le> js_1_004 \<and> js_1_004 \<le> 10000 \<and>
   map_option a_balance
     (account_of_user
        (fund_all env1 account_store caller1 1 (card_source ''4111111111111111'')
           [js_1_004, js_1_004]) 1 (u_id user1)) = Some 2 \<and>
   spec_final_balance [js_1_004, js_1_004] = fl (201 / 100) \<and>
   spec_final_balance_exact [js_1_004, js_1_004] = fl (201 / 100) \<and>
   fl (201 / 100) \<noteq> 2"
proof -
  have a: "js_1_004 = 2260807012939989 / 2251799813685248"
    by (simp add: js_1_004_def number_simps Let_def)
  have b: "fl (201 / 100) = 1131529406376837 / 562949953421312"
    by (simp add: number_simps Let_def)
  have range: "fl (1 / 100) \<le> js_1_004 \<and> js_1_004 \<le> 10000"
    by (simp add: a fl_cent)
  have bal: "map_option a_balance
     (account_of_user
        (fund_all env1 account_store caller1 1 (card_source ''4111111111111111'')
           [js_1_004, js_1_004]) 1 (u_id user1)) = Some 2"
    unfolding a by (simp add: fund_eval_simps)
  have s1: "spec_final_balance [js_1_004, js_1_004] = fl (201 / 100)"
    unfolding a b by (simp add: spec_final_balance_def number_simps Let_def)
  have s2: "spec_final_balance_exact [js_1_004, js_1_004] = fl (201 / 100)"
    unfolding a b by (simp add: spec_final_balance_exact_def number_simps Let_def)
  have ne: "fl (201 / 100) \<noteq> 2"
    by (simp add: b)
  show ?thesis
    using range bal s1 s2 ne by simp
qed

text \<open>
  C1, amended. The caller is authenticated, the account is the caller's, active and at
  balance 0, the funding source passes validation, every amount lies between the numbers
  0.01 and 10000, and there are at most \<open>10 ^ 9\<close> of them. Then the balance stored after the
  last call is the JavaScript number \<open>(c1 + ... + cn) / 100\<close>, where \<open>ci\<close> is the amount of
  call \<open>i\<close> in cents, \<^verbatim>\<open>Math.round(ai * 100)\<close>. When every amount is a whole number of cents
  (rounding it to cents gives it back), that is \<^verbatim>\<open>round(sum(ai)*100)/100\<close>.
\<close>

theorem fund_all_final_balance:
  assumes "ctx_user ctx = Some user"
    and "account_of_user d accountId (u_id user) = Some account"
    and "a_status account = ''active''"
    and "a_balance account = 0"
    and "source_accepted source"
    and "\<forall>a \<in> set amounts. fl (1 / 100) \<le> a \<and> a \<le> 10000"
    and "length amounts \<le> 10 ^ 9"
  shows "map_option a_balance
           (account_of_user (fund_all e d ctx accountId source amounts) accountId (u_id user)) =
           Some (fl (of_int (sum_list (map cents amounts)) / 100)) \<and>
         ((\<forall>a \<in> set amounts. fdiv (Math_round (fmul a 100)) 100 = a) \<longrightarrow>
          map_option a_balance
            (account_of_user (fund_all e d ctx accountId source amounts) accountId (u_id user)) =
            Some (spec_final_balance_exact amounts))"
proof -
  have "int (length amounts) \<le> 10 ^ 9"
    using assms(7) by (metis of_nat_le_iff of_nat_numeral of_nat_power)
  then have "sum_list (map cents amounts) \<le> 1000000 * 10 ^ 9"
    using sum_cents_bound [OF assms(6)] by simp
  then have small: "sum_list (map cents amounts) < 2 ^ 50"
    by simp
  have bal0: "a_balance account = fl (of_int 0 / 100)"
    using assms(4) by (simp add: fl_zero)
  have "account_of_user (fund_all e d ctx accountId source amounts) accountId (u_id user) =
      Some (account\<lparr>a_balance := fl (of_int (0 + sum_list (map cents amounts)) / 100)\<rparr>)"
    using assms(1,5,2,3) bal0 _ assms(6)
  proof (rule fund_all_balance_from)
    show "(0 :: int) \<le> 0" by simp
    show "0 + sum_list (map cents amounts) < 2 ^ 50" using small by simp
  qed
  then have final: "map_option a_balance
      (account_of_user (fund_all e d ctx accountId source amounts) accountId (u_id user)) =
      Some (fl (of_int (sum_list (map cents amounts)) / 100))"
    by simp
  have "spec_final_balance_exact amounts = fl (of_int (sum_list (map cents amounts)) / 100)"
    if "\<forall>a \<in> set amounts. fdiv (Math_round (fmul a 100)) 100 = a"
    using whole_cents_sum [OF assms(6) that small]
    by (simp add: spec_final_balance_exact_def fdiv_def Math_round_def)
  then show ?thesis
    using final by simp
qed

text \<open>
  The deposits of the integration test: twenty times 1.05 on a new account leave a
  balance of exactly 21.
\<close>

theorem fund_all_final_balance_witness:
  "map_option a_balance
     (account_of_user
        (fund_all env1 account_store caller1 1 (card_source ''4111111111111111'')
           (replicate 20 js_1_05)) 1 (u_id user1)) = Some 21 \<and>
   spec_final_balance_exact (replicate 20 js_1_05) = 21"
proof -
  have a: "js_1_05 = 4728779608739021 / 4503599627370496"
    by (simp add: js_1_05_def number_simps Let_def)
  have c: "cents js_1_05 = 105"
    unfolding a by (simp add: cents_def number_simps Let_def)
  have c': "fl (105 / 100) = js_1_05"
    by (simp add: js_1_05_def)
  have whole: "fdiv (Math_round (fmul js_1_05 100)) 100 = js_1_05"
    unfolding round_amount c using c' by simp
  have u: "ctx_user caller1 = Some user1"
    by (simp add: caller1_def)
  have acc: "account_of_user account_store 1 (u_id user1) =
      Some \<lparr>a_id = 1, a_userId = 1, a_accountNumber = ''0000000001'',
            a_accountType = ''checking'', a_balance = 0, a_status = ''active'',
            a_createdAt = 0\<rparr>"
    by (simp add: account_of_user_def account_store_def empty_db_def user1_def)
  have src: "source_accepted (card_source ''4111111111111111'')"
    by (simp add: source_accepted_def card_source_def detectCardType_def is_decimal_digit_def
        visa_4111111111111111)
  have range: "\<forall>x \<in> set (replicate 20 js_1_05). fl (1 / 100) \<le> x \<and> x \<le> 10000"
    by (simp add: a fl_cent)
  have len: "length (replicate 20 js_1_05) \<le> 10 ^ 9"
    by simp
  have wh: "\<forall>x \<in> set (replicate 20 js_1_05). fdiv (Math_round (fmul x 100)) 100 = x"
    using whole by simp
  have total: "sum_list (map cents (replicate 20 js_1_05)) = 2100"
    by (simp add: c sum_list_replicate)
  have fl21: "fl (of_int 2100 / 100) = 21"
    by (simp add: number_simps Let_def)
  let ?balance = "map_option a_balance
     (account_of_user
        (fund_all env1 account_store caller1 1 (card_source ''4111111111111111'')
           (replicate 20 js_1_05)) 1 (u_id user1))"
  have both: "?balance = Some (fl (of_int (sum_list (map cents (replicate 20 js_1_05))) / 100)) \<and>
      ((\<forall>x \<in> set (replicate 20 js_1_05). fdiv (Math_round (fmul x 100)) 100 = x) \<longrightarrow>
       ?balance = Some (spec_final_balance_exact (replicate 20 js_1_05)))"
    by (rule fund_all_final_balance [OF u acc _ _ src range len]) simp_all
  then have b1: "?balance = Some 21"
    unfolding total fl21 by blast
  from both wh have b2: "?balance = Some (spec_final_balance_exact (replicate 20 js_1_05))"
    by blast
  from b1 b2 show ?thesis
    by simp
qed

section \<open>Properties of the date-of-birth validation\<close>

text \<open>
  On the calendar fields it reads, the third refinement is the calendar rule: the
  eighteenth birthday is today or earlier.
\<close>

lemma age_on_calendar:
  "18 \<le> age_on (ty, tm, td) (dy, dm, dd) \<longleftrightarrow>
   dy + 18 < ty \<or> (dy + 18 = ty \<and> (dm < tm \<or> (dm = tm \<and> dd \<le> td)))"
  by (auto simp: age_on_def Let_def)

text \<open>A day past the end of the month runs over: 30 February 2008 is 1 March 2008.\<close>

lemma date_2008_02_30: "Date_of_iso_date ''2008-02-30'' = Date_of_iso_date ''2008-03-01''"
  by code_simp

lemma days_2008_11_03: "days_from_civil 2008 11 3 = 14186"
  by code_simp

lemma days_2009_11_02: "days_from_civil 2009 11 2 = 14550"
  by code_simp

lemma date_2008_11_03: "Date_of_iso_date ''2008-11-03'' = Some 1225670400000"
  by code_simp

lemma west_today: "local_fields (- 18000000) 1793638800000 = (2026, 10, 2)"
  by code_simp

lemma west_born: "local_fields (- 18000000) 1225670400000 = (2008, 10, 2)"
  by code_simp

lemma utc_today: "local_fields 0 1793638800000 = (2026, 10, 2)"
  by code_simp

lemma utc_born: "local_fields 0 1225670400000 = (2008, 10, 3)"
  by code_simp

lemma date_2008_11_02: "Date_of_iso_date ''2008-11-02'' = Some 1225584000000"
  by code_simp

lemma west_born_18: "local_fields (- 18000000) 1225584000000 = (2008, 10, 1)"
  by code_simp

lemma utc_born_18: "local_fields 0 1225584000000 = (2008, 10, 2)"
  by code_simp

text \<open>
  C9. The claim: the validation accepts exactly the dates of birth of age 18 or more, and
  one 17 years and 364 days before today fails. Today is 2 November 2026 on a host five
  hours west of Greenwich; the input is \<^verbatim>\<open>2008-11-03\<close>, 364 days before 2 November 2009.
  \<^verbatim>\<open>new Date("2008-11-03")\<close> is midnight UTC, which on that host is the evening of
  2 November 2008: \<^verbatim>\<open>getDate\<close> returns 2, the computed age is 18, and no refinement
  objects. On a host that keeps UTC the same input is refused. The date of birth exactly
  18 years before today, \<^verbatim>\<open>2008-11-02\<close>, is accepted on both hosts.
\<close>

theorem dateOfBirth_accepts_minor_west_of_greenwich:
  "days_from_civil 2009 11 2 - 364 = days_from_civil 2008 11 3 \<and>
   Date_of_iso_date ''2008-11-03'' = Some (days_from_civil 2008 11 3 * msPerDay) \<and>
   local_fields (env_tza env_west) (env_now env_west) = (2026, 10, 2) \<and>
   local_fields (env_tza env_west) (days_from_civil 2008 11 3 * msPerDay) = (2008, 10, 2) \<and>
   dateOfBirth_issues env_west (Date_of_iso_date ''2008-11-03'') = [] \<and>
   local_fields (env_tza env_utc) (days_from_civil 2008 11 3 * msPerDay) = (2008, 10, 3) \<and>
   dateOfBirth_issues env_utc (Date_of_iso_date ''2008-11-03'') =
     [''You must be at least 18 years old to open an account''] \<and>
   dateOfBirth_issues env_west (Date_of_iso_date ''2008-11-02'') = [] \<and>
   dateOfBirth_issues env_utc (Date_of_iso_date ''2008-11-02'') = []"
  by (simp add: days_2008_11_03 days_2009_11_02 date_2008_11_03 date_2008_11_02 msPerDay_def
      dateOfBirth_issues_def age_on_def env_west_def env_utc_def env1_def
      west_today west_born utc_today utc_born west_born_18 utc_born_18)

section \<open>The first token after a second login\<close>

lemma start_session_token:
  "start_session e d ctx user = (Inr r, d', rs) \<Longrightarrow>
   ar_token r = jwt_sign e (getJwtSecret e) (u_id user) (env_now e div 1000)"
  by (auto simp: start_session_def Let_def split: option.splits)

text \<open>
  Two sessions of one user started in the same second, with the same secret, get the same
  token: after the second start the user's only row holds the token of the first.
\<close>

lemma same_second_same_token:
  assumes "jwt_sign e2 = jwt_sign e1" and "JWT_SECRET e2 = JWT_SECRET e1"
    and "env_now e2 div 1000 = env_now e1 div 1000"
    and first: "start_session e1 d ctx1 user = (Inr r1, d1, rs1)"
    and second: "start_session e2 d1 ctx2 user = (Inr r2, d2, rs2)"
  shows "ar_token r2 = ar_token r1"
    and "map s_token (sessions_of d2 (u_id user)) = [ar_token r1]"
proof -
  have "getJwtSecret e2 = getJwtSecret e1"
    using assms(2) by (simp add: getJwtSecret_def)
  then show same: "ar_token r2 = ar_token r1"
    using start_session_token [OF first] start_session_token [OF second] assms(1,3) by simp
  show "map s_token (sessions_of d2 (u_id user)) = [ar_token r1]"
    using start_session_only_token [OF second] start_session_rows(2) [OF second] same by simp
qed

lemma token_17_00_00: "jwt_sign_example secret (Suc 0) 1793638800 = ''jwt-1-1793638800''"
  by (simp add: jwt_sign_example_def decimal.simps)

lemma token_17_00_01: "jwt_sign_example secret (Suc 0) 1793638801 = ''jwt-1-1793638801''"
  by (simp add: jwt_sign_example_def decimal.simps)

lemma date_1990_01_01: "Date_of_iso_date ''1990-01-01'' = Some 631152000000"
  by code_simp

lemma utc_born_1990: "local_fields 0 631152000000 = (1990, 0, 1)"
  by code_simp

lemmas session_example_simps =
  env_signup_def env_login_def env_login_later_def jwt_verify_example_def
  token_17_00_00 token_17_00_01

text \<open>
  C4. The claim: at most one session row per user, so that a second login invalidates the
  first session's token. The row count holds (\<open>single_session_reachable\<close>); the token is
  invalidated only when the second login gets another token, and \<^verbatim>\<open>jwt.sign\<close> gives the
  same token for the same user in the same second. A signup at 17:00:00.000 and a login
  400 milliseconds later, as in the session test of the repository: both return the same
  token, its row is in the table after the login, and the token of the first device still
  resolves to the user. With the login one second later the first token is gone.
\<close>

theorem login_same_second_keeps_first_token:
  "env_now env_login div 1000 = env_now env_signup div 1000 \<and>
   dateOfBirth_issues env_signup (Date_of_iso_date (dateOfBirth (in_profile signup1))) = [] \<and>
   map_sum id ar_token (fst (signup env_signup empty_db anonymous signup1)) =
     Inr ''jwt-1-1793638800'' \<and>
   map_sum id ar_token
     (fst (login env_login (run_auth empty_db [Signup env_signup anonymous signup1])
             anonymous login1)) = Inr ''jwt-1-1793638800'' \<and>
   map s_token (sessions (run_auth empty_db
      [Signup env_signup anonymous signup1, Login env_login anonymous login1])) =
     [''jwt-1-1793638800''] \<and>
   find (\<lambda>s. s_token s = ''jwt-1-1793638800'') (sessions (run_auth empty_db
      [Signup env_signup anonymous signup1, Login env_login anonymous login1])) \<noteq> None \<and>
   ctx_user (fst (createContext env_login
      (run_auth empty_db [Signup env_signup anonymous signup1, Login env_login anonymous login1])
      (fetch_request ''session=jwt-1-1793638800'') no_headers)) =
     Some (user1\<lparr>u_createdAt := 1793638800\<rparr>) \<and>
   map s_token (sessions (run_auth empty_db
      [Signup env_signup anonymous signup1, Login env_login_later anonymous login1])) =
     [''jwt-1-1793638801''] \<and>
   ctx_user (fst (createContext env_login_later
      (run_auth empty_db
         [Signup env_signup anonymous signup1, Login env_login_later anonymous login1])
      (fetch_request ''session=jwt-1-1793638800'') no_headers)) = None"
proof -
  have second: "env_now env_login div 1000 = env_now env_signup div 1000"
    by (simp add: env_login_def env_signup_def)
  have born: "dateOfBirth_issues env_signup
      (Date_of_iso_date (dateOfBirth (in_profile signup1))) = []"
    by (simp add: signup1_def user1_def date_1990_01_01 dateOfBirth_issues_def age_on_def
        env_signup_def env1_def utc_today utc_born_1990)
  have run1: "run_auth empty_db [Signup env_signup anonymous signup1] =
      empty_db\<lparr>users := [user1\<lparr>u_createdAt := 1793638800\<rparr>], users_seq := 1,
               sessions := [\<lparr>s_id = 1, s_userId = 1, s_token = ''jwt-1-1793638800'',
                              s_expiresAt = 1794243600000, s_createdAt = 1793638800\<rparr>],
               sessions_seq := 1\<rparr>"
    by (simp add: store_simps example_simps session_example_simps truthy_def Let_def)
  have t1: "map_sum id ar_token (fst (signup env_signup empty_db anonymous signup1)) =
      Inr ''jwt-1-1793638800''"
    by (simp add: store_simps example_simps session_example_simps truthy_def Let_def)
  have t2: "map_sum id ar_token
     (fst (login env_login (run_auth empty_db [Signup env_signup anonymous signup1])
             anonymous login1)) = Inr ''jwt-1-1793638800''"
    unfolding run1
    by (simp add: store_simps example_simps session_example_simps truthy_def Let_def)
  have run2: "run_auth empty_db
      [Signup env_signup anonymous signup1, Login env_login anonymous login1] =
      empty_db\<lparr>users := [user1\<lparr>u_createdAt := 1793638800\<rparr>], users_seq := 1,
               sessions := [\<lparr>s_id = 2, s_userId = 1, s_token = ''jwt-1-1793638800'',
                              s_expiresAt = 1794243600400, s_createdAt = 1793638800\<rparr>],
               sessions_seq := 2\<rparr>"
    by (simp add: store_simps example_simps session_example_simps truthy_def Let_def)
  have run3: "run_auth empty_db
      [Signup env_signup anonymous signup1, Login env_login_later anonymous login1] =
      empty_db\<lparr>users := [user1\<lparr>u_createdAt := 1793638800\<rparr>], users_seq := 1,
               sessions := [\<lparr>s_id = 2, s_userId = 1, s_token = ''jwt-1-1793638801'',
                              s_expiresAt = 1794243601200, s_createdAt = 1793638801\<rparr>],
               sessions_seq := 2\<rparr>"
    by (simp add: store_simps example_simps session_example_simps truthy_def Let_def)
  have still: "ctx_user (fst (createContext env_login
      (run_auth empty_db [Signup env_signup anonymous signup1, Login env_login anonymous login1])
      (fetch_request ''session=jwt-1-1793638800'') no_headers)) =
     Some (user1\<lparr>u_createdAt := 1793638800\<rparr>)"
    unfolding run2
    by (simp add: createContext_def request_cookieHeader_def js_string_simps example_simps
        session_example_simps empty_db_def Let_def)
  have gone: "ctx_user (fst (createContext env_login_later
      (run_auth empty_db
         [Signup env_signup anonymous signup1, Login env_login_later anonymous login1])
      (fetch_request ''session=jwt-1-1793638800'') no_headers)) = None"
    unfolding run3
    by (simp add: createContext_def request_cookieHeader_def js_string_simps example_simps
        session_example_simps empty_db_def Let_def)
  have rows: "map s_token (sessions (run_auth empty_db
      [Signup env_signup anonymous signup1, Login env_login anonymous login1])) =
     [''jwt-1-1793638800'']"
    unfolding run2 by (simp add: empty_db_def)
  have row: "find (\<lambda>s. s_token s = ''jwt-1-1793638800'') (sessions (run_auth empty_db
      [Signup env_signup anonymous signup1, Login env_login anonymous login1])) \<noteq> None"
    unfolding run2 by (simp add: empty_db_def)
  have rows_later: "map s_token (sessions (run_auth empty_db
      [Signup env_signup anonymous signup1, Login env_login_later anonymous login1])) =
     [''jwt-1-1793638801'']"
    unfolding run3 by (simp add: empty_db_def)
  show ?thesis
    using second born t1 t2 rows row still rows_later gone
    by (intro conjI)
qed

end
